theory Spec2Isabelle
  imports Complex_Main "HOL-Library.Word" "HOL-Library.Multiset" "HOL-Library.Product_Lexorder"
begin

section \<open>Values\<close>

text \<open>
  A \<^verbatim>\<open>UUID\<close> is a 128-bit value, a timestamp is a point on the database clock, and a
  \<^verbatim>\<open>Decimal\<close> is an exact decimal fraction, modelled by the rational it denotes
  (comparison and multiplication are exact). A string is a list of characters, one
  \<^typ>\<open>char\<close> per code point.
\<close>

type_synonym uuid = "128 word"
type_synonym datetime = int
type_synonym decimal = rat

section \<open>The Product entity (model\_template.py)\<close>

text \<open>
  The mapped columns of \<^verbatim>\<open>Product\<close> with its three mixins. The column \<^verbatim>\<open>id\<close> is called
  \<open>id_pk\<close> here. A record of this type is a row of the table and also the instance
  that the session loads from it. The attributes \<open>name\<close>, \<open>price\<close> and \<open>category_id\<close>
  are optional because the service assigns to an instance whatever value the update
  payload carries, \<^verbatim>\<open>None\<close> included; the table refuses such a value when the
  instance is flushed.
\<close>

record product =
  id_pk :: uuid
  created_at :: datetime
  updated_at :: "datetime option"
  created_by :: "uuid option"
  updated_by :: "uuid option"
  name :: "string option"
  description :: "string option"
  sku :: string
  price :: "decimal option"
  quantity :: int
  is_active :: bool
  is_published :: bool
  published_at :: "datetime option"
  category_id :: "uuid option"

section \<open>Errors (src.core.exceptions, sqlalchemy.exc)\<close>

datatype error_code = InvalidPrice | DuplicateSKU | MissingDescription | InvalidCategory

text \<open>
  \<open>NotFoundError\<close> carries the product id of its details, \<open>ConflictError\<close> its code and
  the two entries \<^verbatim>\<open>sku\<close> and \<^verbatim>\<open>existing_id\<close> of its details. \<open>MultipleResultsFound\<close> is
  what \<^verbatim>\<open>scalar_one_or_none\<close> raises on more than one row. \<open>IntegrityError\<close> is raised
  for a statement that breaks a constraint of the table, which it names, and
  \<open>DataError\<close> for a value that does not fit the type of its column.
\<close>

datatype error =
    NotFoundError uuid
  | ValidationError error_code
  | ConflictError error_code string uuid
  | MultipleResultsFound
  | IntegrityError string
  | DataError string

section \<open>The session\<close>

text \<open>
  The state of the persistence layer is the \<^verbatim>\<open>products\<close> table: its rows, in storage
  order. The tables \<^verbatim>\<open>categories\<close> and \<^verbatim>\<open>users\<close>, which the service never writes, are
  present by their keys. The service runs on a session that executes each statement
  and commits it; a method that raises has committed nothing. The clock value \<open>now\<close>
  of \<^verbatim>\<open>func.now()\<close> and the identifier drawn by \<^verbatim>\<open>uuid4\<close> are arguments of the operations
  that use them.
\<close>

type_synonym db = "product list"

fun scalar_one_or_none :: "'a list \<Rightarrow> error + 'a option" where
  "scalar_one_or_none [] = Inr None"
| "scalar_one_or_none [x] = Inr (Some x)"
| "scalar_one_or_none (x # y # zs) = Inl MultipleResultsFound"

record referenced =
  categories :: "uuid set"
  users :: "uuid set"

section \<open>The constraints of the table (model\_template.py)\<close>

text \<open>
  A statement that writes a column is subject to what the table declares for it, in
  this order: the value is brought to the type of the column, then \<^verbatim>\<open>NOT NULL\<close>, the
  \<^verbatim>\<open>CHECK\<close> constraints, the unique indexes and the foreign keys are tested. The first
  failure raises and the statement changes nothing. The table is taken to meet its
  constraints before the statement, so a column that the statement does not write is
  not tested again.

  \<^verbatim>\<open>Numeric(10, 2)\<close> rounds to two decimal places, a half away from zero, and has room
  for eight digits before the point. \<^verbatim>\<open>String(n)\<close> holds \<open>n\<close> characters; of a longer
  string it drops the excess when that is all spaces and refuses it otherwise.
\<close>

definition quantize :: "decimal \<Rightarrow> decimal" where
  "quantize v = sgn v * of_int \<lfloor>\<bar>v\<bar> * 100 + 1 / 2\<rfloor> / 100"

definition numeric_10_2 :: "decimal \<Rightarrow> error + decimal" where
  "numeric_10_2 v =
     (if 10 ^ 8 \<le> \<bar>quantize v\<bar> then Inl (DataError ''numeric field overflow'')
      else Inr (quantize v))"

definition varchar :: "nat \<Rightarrow> string \<Rightarrow> error + string" where
  "varchar n v =
     (if length v \<le> n then Inr v
      else if list_all (\<lambda>c. c = CHR '' '') (drop n v) then Inr (take n v)
      else Inl (DataError ''value too long for type character varying''))"

definition coerce_name :: "string option \<Rightarrow> error + string option" where
  "coerce_name v = (case v of None \<Rightarrow> Inr None | Some n \<Rightarrow> map_sum (\<lambda>e. e) Some (varchar 200 n))"

definition coerce_price :: "decimal option \<Rightarrow> error + decimal option" where
  "coerce_price v = (case v of None \<Rightarrow> Inr None | Some x \<Rightarrow> map_sum (\<lambda>e. e) Some (numeric_10_2 x))"

definition ck_products_positive_price :: "decimal option \<Rightarrow> bool" where
  "ck_products_positive_price v \<longleftrightarrow> (case v of None \<Rightarrow> True | Some x \<Rightarrow> 0 < x)"

definition references :: "uuid set \<Rightarrow> uuid option \<Rightarrow> bool" where
  "references keys v \<longleftrightarrow> (case v of None \<Rightarrow> True | Some k \<Rightarrow> k \<in> keys)"

text \<open>The \<^verbatim>\<open>INSERT\<close> of a new row.\<close>

definition insert_product :: "referenced \<Rightarrow> db \<Rightarrow> product \<Rightarrow> error + product" where
  "insert_product refs rows p =
     (case coerce_name (name p) of
        Inl e \<Rightarrow> Inl e
      | Inr n \<Rightarrow>
     (case varchar 50 (sku p) of
        Inl e \<Rightarrow> Inl e
      | Inr s \<Rightarrow>
     (case coerce_price (price p) of
        Inl e \<Rightarrow> Inl e
      | Inr pr \<Rightarrow>
          if n = None then Inl (IntegrityError ''products.name'')
          else if pr = None then Inl (IntegrityError ''products.price'')
          else if category_id p = None then Inl (IntegrityError ''products.category_id'')
          else if \<not> ck_products_positive_price pr
          then Inl (IntegrityError ''ck_products_positive_price'')
          else if quantity p < 0
          then Inl (IntegrityError ''ck_products_non_negative_quantity'')
          else if id_pk p \<in> id_pk ` set rows then Inl (IntegrityError ''products_pkey'')
          else if s \<in> sku ` set rows then Inl (IntegrityError ''products_sku_key'')
          else if \<not> references (categories refs) (category_id p)
          then Inl (IntegrityError ''products_category_id_fkey'')
          else if \<not> references (users refs) (created_by p)
          then Inl (IntegrityError ''products_created_by_fkey'')
          else Inr (p\<lparr>name := n, sku := s, price := pr\<rparr>))))"

section \<open>ProductCreate (schema\_template.py)\<close>

record ProductCreate =
  name_c :: string
  description_c :: "string option"
  price_c :: decimal
  sku_c :: string
  category_id_c :: uuid

section \<open>ProductService: read operations (service\_template.py)\<close>

definition get_by_id :: "db \<Rightarrow> uuid \<Rightarrow> error + product" where
  "get_by_id rows product_id =
     (case scalar_one_or_none (filter (\<lambda>p. id_pk p = product_id) rows) of
        Inl e \<Rightarrow> Inl e
      | Inr None \<Rightarrow> Inl (NotFoundError product_id)
      | Inr (Some product) \<Rightarrow> Inr product)"

definition get_by_sku :: "db \<Rightarrow> string \<Rightarrow> error + product option" where
  "get_by_sku rows s = scalar_one_or_none (filter (\<lambda>p. sku p = s) rows)"

section \<open>ProductService: write operations\<close>

text \<open>
  Every write operation returns its outcome together with the table after the call.
  \<open>new_product\<close> is \<^verbatim>\<open>Product(**data.model_dump(), created_by=created_by)\<close> with the
  column defaults filling what the constructor leaves out; the product that \<open>create\<close>
  returns is the row as the table stores it.
\<close>

definition new_product :: "ProductCreate \<Rightarrow> uuid \<Rightarrow> uuid \<Rightarrow> datetime \<Rightarrow> product" where
  "new_product data creator new_id now =
     \<lparr> id_pk = new_id, created_at = now, updated_at = None,
       created_by = Some creator, updated_by = None,
       name = Some (name_c data), description = description_c data,
       sku = sku_c data, price = Some (price_c data), quantity = 0,
       is_active = True, is_published = False, published_at = None,
       category_id = Some (category_id_c data) \<rparr>"

definition create ::
  "referenced \<Rightarrow> db \<Rightarrow> ProductCreate \<Rightarrow> uuid \<Rightarrow> uuid \<Rightarrow> datetime
     \<Rightarrow> (error + product) \<times> db" where
  "create refs rows data creator new_id now =
     (if price_c data < 1 / 100 then (Inl (ValidationError InvalidPrice), rows)
      else case get_by_sku rows (sku_c data) of
          Inl e \<Rightarrow> (Inl e, rows)
        | Inr (Some existing) \<Rightarrow>
            (Inl (ConflictError DuplicateSKU (sku_c data) (id_pk existing)), rows)
        | Inr None \<Rightarrow>
            (case insert_product refs rows (new_product data creator new_id now) of
               Inl e \<Rightarrow> (Inl e, rows)
             | Inr product \<Rightarrow> (Inr product, rows @ [product])))"

definition replace_row :: "uuid \<Rightarrow> product \<Rightarrow> db \<Rightarrow> db" where
  "replace_row product_id product rows =
     map (\<lambda>r. if id_pk r = product_id then product else r) rows"

subsection \<open>update\<close>

text \<open>
  \<^verbatim>\<open>ProductUpdate\<close>: four optional fields with default \<^verbatim>\<open>None\<close>, and the set of the
  fields that the payload named (\<^verbatim>\<open>model_fields_set\<close>).
\<close>

datatype field_name = F_name | F_description | F_price | F_category_id

record ProductUpdate =
  name_u :: "string option"
  description_u :: "string option"
  price_u :: "decimal option"
  category_id_u :: "uuid option"
  model_fields_set :: "field_name set"

text \<open>
  An entry of the dictionary \<^verbatim>\<open>data.model_dump(exclude_unset=True)\<close>: a field with its
  value. The dictionary lists the fields of \<open>model_fields_set\<close> in the order of their
  declaration.
\<close>

datatype entry =
    Name_entry "string option"
  | Description_entry "string option"
  | Price_entry "decimal option"
  | Category_id_entry "uuid option"

definition model_dump_exclude_unset :: "ProductUpdate \<Rightarrow> entry list" where
  "model_dump_exclude_unset data =
     (if F_name \<in> model_fields_set data then [Name_entry (name_u data)] else [])
     @ (if F_description \<in> model_fields_set data
        then [Description_entry (description_u data)] else [])
     @ (if F_price \<in> model_fields_set data then [Price_entry (price_u data)] else [])
     @ (if F_category_id \<in> model_fields_set data
        then [Category_id_entry (category_id_u data)] else [])"

fun setattr :: "product \<Rightarrow> entry \<Rightarrow> product" where
  "setattr product (Name_entry v) = product\<lparr>name := v\<rparr>"
| "setattr product (Description_entry v) = product\<lparr>description := v\<rparr>"
| "setattr product (Price_entry v) = product\<lparr>price := v\<rparr>"
| "setattr product (Category_id_entry v) = product\<lparr>category_id := v\<rparr>"

text \<open>
  The \<^verbatim>\<open>UPDATE\<close> that the flush emits for the assigned attributes and for \<open>updated_by\<close>:
  it yields the values as the table stores them.
\<close>

fun coerce_entry :: "entry \<Rightarrow> error + entry" where
  "coerce_entry (Name_entry v) = map_sum (\<lambda>e. e) Name_entry (coerce_name v)"
| "coerce_entry (Description_entry v) = Inr (Description_entry v)"
| "coerce_entry (Price_entry v) = map_sum (\<lambda>e. e) Price_entry (coerce_price v)"
| "coerce_entry (Category_id_entry v) = Inr (Category_id_entry v)"

fun coerce_all :: "entry list \<Rightarrow> error + entry list" where
  "coerce_all [] = Inr []"
| "coerce_all (x # xs) =
     (case coerce_entry x of
        Inl e \<Rightarrow> Inl e
      | Inr y \<Rightarrow> (case coerce_all xs of Inl e \<Rightarrow> Inl e | Inr ys \<Rightarrow> Inr (y # ys)))"

fun not_null_entry :: "entry \<Rightarrow> error option" where
  "not_null_entry (Name_entry None) = Some (IntegrityError ''products.name'')"
| "not_null_entry (Price_entry None) = Some (IntegrityError ''products.price'')"
| "not_null_entry (Category_id_entry None) = Some (IntegrityError ''products.category_id'')"
| "not_null_entry other = None"

fun check_entry :: "entry \<Rightarrow> error option" where
  "check_entry (Price_entry v) =
     (if ck_products_positive_price v then None
      else Some (IntegrityError ''ck_products_positive_price''))"
| "check_entry other = None"

fun foreign_key_entry :: "referenced \<Rightarrow> entry \<Rightarrow> error option" where
  "foreign_key_entry refs (Category_id_entry v) =
     (if references (categories refs) v then None
      else Some (IntegrityError ''products_category_id_fkey''))"
| "foreign_key_entry refs other = None"

fun first_violation :: "('a \<Rightarrow> error option) \<Rightarrow> 'a list \<Rightarrow> error option" where
  "first_violation test [] = None"
| "first_violation test (x # xs) =
     (case test x of Some e \<Rightarrow> Some e | None \<Rightarrow> first_violation test xs)"

definition execute_update :: "referenced \<Rightarrow> entry list \<Rightarrow> uuid \<Rightarrow> error + entry list" where
  "execute_update refs assignments editor =
     (case coerce_all assignments of
        Inl e \<Rightarrow> Inl e
      | Inr stored \<Rightarrow>
          (case first_violation not_null_entry stored of
             Some e \<Rightarrow> Inl e
           | None \<Rightarrow>
          (case first_violation check_entry stored of
             Some e \<Rightarrow> Inl e
           | None \<Rightarrow>
          (case first_violation (foreign_key_entry refs) stored of
             Some e \<Rightarrow> Inl e
           | None \<Rightarrow>
               if \<not> references (users refs) (Some editor)
               then Inl (IntegrityError ''products_updated_by_fkey'')
               else Inr stored))))"

text \<open>
  When no attribute has a net change the flush emits nothing. Otherwise the statement
  also sets \<open>updated_at\<close> (\<^verbatim>\<open>onupdate=func.now()\<close>), and the refresh loads the row as
  stored.
\<close>

definition update ::
  "referenced \<Rightarrow> db \<Rightarrow> uuid \<Rightarrow> ProductUpdate \<Rightarrow> uuid \<Rightarrow> datetime
     \<Rightarrow> (error + product) \<times> db" where
  "update refs rows product_id data editor now =
     (case get_by_id rows product_id of
        Inl e \<Rightarrow> (Inl e, rows)
      | Inr product \<Rightarrow>
          (let update_data = model_dump_exclude_unset data;
               assigned = fold (\<lambda>item p. setattr p item) update_data product;
               stamped = assigned\<lparr>updated_by := Some editor\<rparr>
           in if stamped = product then (Inr product, rows)
              else
                (case execute_update refs update_data editor of
                   Inl e \<Rightarrow> (Inl e, rows)
                 | Inr stored \<Rightarrow>
                     (let refreshed = (fold (\<lambda>item p. setattr p item) stored product)
                                        \<lparr>updated_by := Some editor, updated_at := Some now\<rparr>
                      in (Inr refreshed, replace_row product_id refreshed rows)))))"

subsection \<open>publish\<close>

text \<open>
  \<^verbatim>\<open>Product\<close> maps no column \<^verbatim>\<open>published_by\<close>: the assignment in \<^verbatim>\<open>publish\<close> makes a plain
  attribute of the instance that the method returns, next to the mapped columns, and
  the flush does not write it. The assignment of \<^verbatim>\<open>func.now()\<close> to \<open>published_at\<close>
  always emits an \<^verbatim>\<open>UPDATE\<close>; the three columns it sets carry no constraint that their
  new values can break.
\<close>

record published_product =
  columns :: product
  published_by :: uuid

definition publish ::
  "db \<Rightarrow> uuid \<Rightarrow> uuid \<Rightarrow> datetime \<Rightarrow> (error + published_product) \<times> db" where
  "publish rows product_id publisher now =
     (case get_by_id rows product_id of
        Inl e \<Rightarrow> (Inl e, rows)
      | Inr product \<Rightarrow>
          (if description product = None \<or> description product = Some []
           then (Inl (ValidationError MissingDescription), rows)
           else
             (let refreshed = product\<lparr>is_published := True, published_at := Some now,
                                      updated_at := Some now\<rparr>
              in (Inr \<lparr>columns = refreshed, published_by = publisher\<rparr>,
                  replace_row product_id refreshed rows))))"

subsection \<open>bulk\_update\_prices\<close>

text \<open>
  One \<^verbatim>\<open>UPDATE products SET price = price * :multiplier WHERE category_id = :category\<close>.
  For every row that it matches the product is brought to \<^verbatim>\<open>Numeric(10, 2)\<close> and tested
  against \<^verbatim>\<open>NOT NULL\<close> (the product of a null price is null) and the \<^verbatim>\<open>CHECK\<close> on the
  price; \<open>onupdate\<close> sets \<open>updated_at\<close>. A row that fails makes the statement raise and
  no row changes. \<^verbatim>\<open>rowcount\<close> is the number of the rows matched.
\<close>

definition multiply_price :: "decimal \<Rightarrow> datetime \<Rightarrow> product \<Rightarrow> error + product" where
  "multiply_price multiplier now p =
     (case price p of
        None \<Rightarrow> Inl (IntegrityError ''products.price'')
      | Some x \<Rightarrow>
          (case numeric_10_2 (x * multiplier) of
             Inl e \<Rightarrow> Inl e
           | Inr y \<Rightarrow>
               if \<not> ck_products_positive_price (Some y)
               then Inl (IntegrityError ''ck_products_positive_price'')
               else Inr (p\<lparr>price := Some y, updated_at := Some now\<rparr>)))"

fun all_rows :: "(error + 'a) list \<Rightarrow> error + 'a list" where
  "all_rows [] = Inr []"
| "all_rows (x # xs) =
     (case x of
        Inl e \<Rightarrow> Inl e
      | Inr y \<Rightarrow> (case all_rows xs of Inl e \<Rightarrow> Inl e | Inr ys \<Rightarrow> Inr (y # ys)))"

definition bulk_update_prices ::
  "db \<Rightarrow> uuid \<Rightarrow> decimal \<Rightarrow> datetime \<Rightarrow> (error + int) \<times> db" where
  "bulk_update_prices rows category multiplier now =
     (let matched = (\<lambda>p. category_id p = Some category)
      in case all_rows (map (\<lambda>p. if matched p then multiply_price multiplier now p
                                   else Inr p) rows) of
           Inl e \<Rightarrow> (Inl e, rows)
         | Inr rows' \<Rightarrow> (Inr (int (length (filter matched rows))), rows'))"

subsection \<open>list\<close>

text \<open>
  The operator \<^verbatim>\<open>ILIKE\<close> belongs to the database engine and is an argument \<open>ilike\<close> of
  the model, applied to the column value and the pattern; on a null name it selects
  nothing. The two conditions test the truth value of their argument: a \<^verbatim>\<open>UUID\<close> is
  always true, the empty search string is false.

  The query orders by \<open>created_at\<close>, latest first, and by nothing else: the order of
  rows of equal time is the engine's to choose, anew for every statement. The choice
  is the argument \<open>tie\<close>, a rank that the engine gives to each row for this statement.
  \<^verbatim>\<open>OFFSET\<close> and \<^verbatim>\<open>LIMIT\<close> are natural numbers, the only values the router lets through.
\<close>

definition list_service ::
  "(string \<Rightarrow> string \<Rightarrow> bool) \<Rightarrow> (product \<Rightarrow> nat) \<Rightarrow> db \<Rightarrow> nat \<Rightarrow> nat \<Rightarrow> uuid option
     \<Rightarrow> string option \<Rightarrow> product list \<times> int" where
  "list_service ilike tie rows skip limit category search =
     (let query = rows;
          query = (case category of
                     None \<Rightarrow> query
                   | Some c \<Rightarrow> filter (\<lambda>p. category_id p = Some c) query);
          query = (case search of
                     None \<Rightarrow> query
                   | Some s \<Rightarrow>
                       if s = [] then query
                       else filter (\<lambda>p. case name p of
                                           None \<Rightarrow> False
                                         | Some n \<Rightarrow> ilike n (''%'' @ s @ ''%'')) query);
          total = int (length query);
          products = take limit (drop skip
                       (sort_key (\<lambda>p. (- created_at p, tie p)) query))
      in (products, total))"

section \<open>Validation schemas (schema\_template.py)\<close>

text \<open>
  A schema validates its fields in the order of their declaration and reports the
  failures of all of them, each with its location. Within one field the constraints of
  \<^verbatim>\<open>Field\<close> are checked first and stop at the first failure; a \<^verbatim>\<open>field_validator\<close> in
  its default mode runs after them, on the value they let through.
\<close>

datatype error_type =
    string_type | string_too_short | string_too_long | string_pattern_mismatch
  | decimal_type | decimal_max_places | greater_than | greater_than_equal
  | less_than_equal | uuid_type | value_error

type_synonym validation_errors = "(string \<times> error_type) list"

definition errors_of :: "string \<Rightarrow> error_type + 'a \<Rightarrow> validation_errors" where
  "errors_of loc r = (case r of Inl e \<Rightarrow> [(loc, e)] | Inr v \<Rightarrow> [])"

definition str_constraints ::
  "nat option \<Rightarrow> nat option \<Rightarrow> (string \<Rightarrow> bool) option \<Rightarrow> string \<Rightarrow> error_type + string" where
  "str_constraints min_length max_length pattern v =
     (if (case min_length of None \<Rightarrow> False | Some n \<Rightarrow> length v < n)
      then Inl string_too_short
      else if (case max_length of None \<Rightarrow> False | Some n \<Rightarrow> n < length v)
      then Inl string_too_long
      else if (case pattern of None \<Rightarrow> False | Some matches \<Rightarrow> \<not> matches v)
      then Inl string_pattern_mismatch
      else Inr v)"

text \<open>At most \<open>n\<close> decimal places, trailing zeros not counted.\<close>

definition decimal_places_le :: "nat \<Rightarrow> decimal \<Rightarrow> bool" where
  "decimal_places_le n v \<longleftrightarrow> of_int \<lfloor>v * 10 ^ n\<rfloor> = v * 10 ^ n"

subsection \<open>ProductBase\<close>

definition name_field :: "string \<Rightarrow> error_type + string" where
  "name_field v = str_constraints (Some 1) (Some 200) None v"

definition description_field :: "string option \<Rightarrow> error_type + string option" where
  "description_field v =
     (case v of
        None \<Rightarrow> Inr None
      | Some d \<Rightarrow> map_sum (\<lambda>e. e) Some (str_constraints None (Some 2000) None d))"

definition price_field :: "decimal \<Rightarrow> error_type + decimal" where
  "price_field v =
     (if \<not> decimal_places_le 2 v then Inl decimal_max_places
      else if \<not> 0 < v then Inl greater_than
      else Inr v)"

subsection \<open>ProductCreate\<close>

text \<open>The pattern \<^verbatim>\<open>^[A-Z0-9-]+$\<close>.\<close>

definition sku_pattern :: "string \<Rightarrow> bool" where
  "sku_pattern v \<longleftrightarrow>
     v \<noteq> [] \<and> list_all (\<lambda>c. c \<in> set ''ABCDEFGHIJKLMNOPQRSTUVWXYZ0123456789-'') v"

text \<open>
  \<^verbatim>\<open>str.upper\<close> on strings of ASCII characters. \<open>sku_field\<close> applies it to strings of
  the pattern only, and these are such strings.
\<close>

definition upper_char :: "char \<Rightarrow> char" where
  "upper_char c =
     (case map_of (zip ''abcdefghijklmnopqrstuvwxyz'' ''ABCDEFGHIJKLMNOPQRSTUVWXYZ'') c of
        None \<Rightarrow> c
      | Some u \<Rightarrow> u)"

definition str_upper :: "string \<Rightarrow> string" where
  "str_upper v = map upper_char v"

definition uppercase_sku :: "string \<Rightarrow> string" where
  "uppercase_sku v = str_upper v"

definition sku_field :: "string \<Rightarrow> error_type + string" where
  "sku_field v =
     (case str_constraints None (Some 50) (Some sku_pattern) v of
        Inl e \<Rightarrow> Inl e
      | Inr checked \<Rightarrow> Inr (uppercase_sku checked))"

text \<open>The request body, its fields already of their types, and the validated object.\<close>

definition ProductCreate_validate :: "ProductCreate \<Rightarrow> validation_errors + ProductCreate" where
  "ProductCreate_validate body =
     (let n = name_field (name_c body);
          d = description_field (description_c body);
          p = price_field (price_c body);
          s = sku_field (sku_c body)
      in case (n, d, p, s) of
           (Inr n', Inr d', Inr p', Inr s') \<Rightarrow>
             Inr \<lparr> name_c = n', description_c = d', price_c = p', sku_c = s',
                   category_id_c = category_id_c body \<rparr>
         | _ \<Rightarrow>
             Inl (errors_of ''name'' n @ errors_of ''description'' d
                  @ errors_of ''price'' p @ errors_of ''sku'' s))"

subsection \<open>ProductUpdate\<close>

text \<open>
  The constraints of the fields of \<^verbatim>\<open>ProductUpdate\<close>, which hold of every payload that
  was validated: a name has 1 to 200 characters, a price is positive with at most two
  decimal places.
\<close>

definition ProductUpdate_valid :: "ProductUpdate \<Rightarrow> bool" where
  "ProductUpdate_valid data \<longleftrightarrow>
     (case name_u data of None \<Rightarrow> True | Some v \<Rightarrow> name_field v = Inr v)
     \<and> (case price_u data of None \<Rightarrow> True | Some v \<Rightarrow> price_field v = Inr v)"

subsection \<open>ProductResponse\<close>

record ProductResponse =
  name_r :: string
  description_r :: "string option"
  price_r :: decimal
  id_r :: uuid
  sku_r :: string
  category_id_r :: uuid
  is_published_r :: bool
  created_at_r :: datetime
  updated_at_r :: "datetime option"
  created_by_r :: uuid

definition required :: "error_type \<Rightarrow> 'a option \<Rightarrow> error_type + 'a" where
  "required e v = (case v of None \<Rightarrow> Inl e | Some x \<Rightarrow> Inr x)"

text \<open>\<^verbatim>\<open>ProductResponse.model_validate(p)\<close>, reading the attributes of a product.\<close>

definition ProductResponse_model_validate :: "product \<Rightarrow> validation_errors + ProductResponse" where
  "ProductResponse_model_validate p =
     (let n = (case name p of None \<Rightarrow> Inl string_type | Some v \<Rightarrow> name_field v);
          d = description_field (description p);
          pr = (case price p of None \<Rightarrow> Inl decimal_type | Some v \<Rightarrow> price_field v);
          c = required uuid_type (category_id p);
          cb = required uuid_type (created_by p)
      in case (n, d, pr, c, cb) of
           (Inr n', Inr d', Inr pr', Inr c', Inr cb') \<Rightarrow>
             Inr \<lparr> name_r = n', description_r = d', price_r = pr', id_r = id_pk p,
                   sku_r = sku p, category_id_r = c', is_published_r = is_published p,
                   created_at_r = created_at p, updated_at_r = updated_at p,
                   created_by_r = cb' \<rparr>
         | _ \<Rightarrow>
             Inl (errors_of ''name'' n @ errors_of ''description'' d
                  @ errors_of ''price'' pr @ errors_of ''category_id'' c
                  @ errors_of ''created_by'' cb))"

subsection \<open>ProductListResponse\<close>

record ProductListResponse =
  items_l :: "ProductResponse list"
  total_l :: int
  skip_l :: int
  limit_l :: int

definition has_more :: "ProductListResponse \<Rightarrow> bool" where
  "has_more self \<longleftrightarrow> skip_l self + int (length (items_l self)) < total_l self"

subsection \<open>ProductQueryParams\<close>

text \<open>
  A payload names a field or leaves it out (\<open>None\<close>); a field of an optional type may
  be named with the value null.
\<close>

record query_payload =
  skip_in :: "int option"
  limit_in :: "int option"
  category_id_in :: "uuid option option"
  min_price_in :: "decimal option option"
  max_price_in :: "decimal option option"
  search_in :: "string option option"

record ProductQueryParams =
  skip_q :: int
  limit_q :: int
  category_id_q :: "uuid option"
  min_price_q :: "decimal option"
  max_price_q :: "decimal option"
  search_q :: "string option"

text \<open>
  The validator of \<open>max_price\<close>. Of \<^verbatim>\<open>info.data\<close>, the fields validated before, it reads
  the entry \<^verbatim>\<open>min_price\<close>: its second argument, \<open>None\<close> when the entry is missing because
  \<open>min_price\<close> failed its own validation.
\<close>

definition max_price_greater_than_min ::
  "decimal option \<Rightarrow> decimal option option \<Rightarrow> error_type + decimal option" where
  "max_price_greater_than_min v info_data_min_price =
     (let min_price = (case info_data_min_price of None \<Rightarrow> None | Some m \<Rightarrow> m)
      in if v \<noteq> None \<and> min_price \<noteq> None \<and> the v < the min_price
         then Inl value_error
         else Inr v)"

definition skip_field :: "int option \<Rightarrow> error_type + int" where
  "skip_field v =
     (case v of None \<Rightarrow> Inr 0
      | Some n \<Rightarrow> if n < 0 then Inl greater_than_equal else Inr n)"

definition limit_field :: "int option \<Rightarrow> error_type + int" where
  "limit_field v =
     (case v of None \<Rightarrow> Inr 20
      | Some n \<Rightarrow> if n < 1 then Inl greater_than_equal
                  else if 100 < n then Inl less_than_equal else Inr n)"

definition min_price_field :: "decimal option option \<Rightarrow> error_type + decimal option" where
  "min_price_field v =
     (case v of None \<Rightarrow> Inr None
      | Some None \<Rightarrow> Inr None
      | Some (Some x) \<Rightarrow> if x < 0 then Inl greater_than_equal else Inr (Some x))"

text \<open>A field that the payload leaves out takes its default without being validated.\<close>

definition max_price_field ::
  "decimal option option \<Rightarrow> decimal option option \<Rightarrow> error_type + decimal option" where
  "max_price_field v info_data_min_price =
     (case v of None \<Rightarrow> Inr None
      | Some None \<Rightarrow> max_price_greater_than_min None info_data_min_price
      | Some (Some x) \<Rightarrow>
          if x < 0 then Inl greater_than_equal
          else max_price_greater_than_min (Some x) info_data_min_price)"

definition search_field :: "string option option \<Rightarrow> error_type + string option" where
  "search_field v =
     (case v of None \<Rightarrow> Inr None
      | Some None \<Rightarrow> Inr None
      | Some (Some s) \<Rightarrow> map_sum (\<lambda>e. e) Some (str_constraints (Some 1) None None s))"

definition ProductQueryParams_validate ::
  "query_payload \<Rightarrow> validation_errors + ProductQueryParams" where
  "ProductQueryParams_validate payload =
     (let sk = skip_field (skip_in payload);
          li = limit_field (limit_in payload);
          mn = min_price_field (min_price_in payload);
          info_data_min_price = (case mn of Inl e \<Rightarrow> None | Inr m \<Rightarrow> Some m);
          mx = max_price_field (max_price_in payload) info_data_min_price;
          se = search_field (search_in payload)
      in case (sk, li, mn, mx, se) of
           (Inr sk', Inr li', Inr mn', Inr mx', Inr se') \<Rightarrow>
             Inr \<lparr> skip_q = sk', limit_q = li',
                   category_id_q = (case category_id_in payload of None \<Rightarrow> None | Some c \<Rightarrow> c),
                   min_price_q = mn', max_price_q = mx', search_q = se' \<rparr>
         | _ \<Rightarrow>
             Inl (errors_of ''skip'' sk @ errors_of ''limit'' li
                  @ errors_of ''min_price'' mn @ errors_of ''max_price'' mx
                  @ errors_of ''search'' se))"

section \<open>The router (router\_template.py)\<close>

text \<open>
  \<open>list_products\<close> after the dependencies are resolved: the query parameters are checked
  against their \<^verbatim>\<open>Query\<close> declarations, the service is called, and every product is
  converted; the first product that fails the response schema ends the request.
\<close>

datatype failure =
    RequestValidationError validation_errors
  | PydanticValidationError validation_errors

fun model_validate_all :: "product list \<Rightarrow> failure + ProductResponse list" where
  "model_validate_all [] = Inr []"
| "model_validate_all (p # ps) =
     (case ProductResponse_model_validate p of
        Inl errs \<Rightarrow> Inl (PydanticValidationError errs)
      | Inr r \<Rightarrow>
          (case model_validate_all ps of
             Inl f \<Rightarrow> Inl f
           | Inr rs \<Rightarrow> Inr (r # rs)))"

definition list_products ::
  "(string \<Rightarrow> string \<Rightarrow> bool) \<Rightarrow> (product \<Rightarrow> nat) \<Rightarrow> db \<Rightarrow> int \<Rightarrow> int \<Rightarrow> uuid option
     \<Rightarrow> string option \<Rightarrow> failure + ProductListResponse" where
  "list_products ilike tie rows skip limit category search =
     (let sk = skip_field (Some skip);
          li = limit_field (Some limit);
          se = search_field (map_option Some search)
      in case (sk, li, se) of
           (Inr sk', Inr li', Inr se') \<Rightarrow>
             (case list_service ilike tie rows (nat skip) (nat limit) category search of
                (products, n_total) \<Rightarrow>
                  (case model_validate_all products of
                     Inl f \<Rightarrow> Inl f
                   | Inr its \<Rightarrow>
                       Inr \<lparr> items_l = its, total_l = n_total, skip_l = skip,
                             limit_l = limit \<rparr>))
         | _ \<Rightarrow>
             Inl (RequestValidationError
                    (errors_of ''skip'' sk @ errors_of ''limit'' li @ errors_of ''search'' se)))"

section \<open>The filter of list\<close>

text \<open>
  The condition that a row meets when it passes both \<^verbatim>\<open>where\<close> clauses of a call of
  \<open>list_service\<close>.
\<close>

definition matches_filters ::
  "(string \<Rightarrow> string \<Rightarrow> bool) \<Rightarrow> uuid option \<Rightarrow> string option \<Rightarrow> product \<Rightarrow> bool" where
  "matches_filters ilike category search p \<longleftrightarrow>
     (case category of None \<Rightarrow> True | Some c \<Rightarrow> category_id p = Some c)
     \<and> (case search of
          None \<Rightarrow> True
        | Some s \<Rightarrow> s = [] \<or> (case name p of None \<Rightarrow> False
                                | Some n \<Rightarrow> ilike n (''%'' @ s @ ''%'')))"

section \<open>Example data\<close>

definition widget :: product where
  "widget =
     \<lparr> id_pk = 1, created_at = 1000, updated_at = None,
       created_by = Some 7, updated_by = None,
       name = Some ''Premium Widget'', description = Some ''A widget'',
       sku = ''WIDGET-001'', price = Some (2999 / 100), quantity = 3,
       is_active = True, is_published = False, published_at = None,
       category_id = Some 10 \<rparr>"

definition gadget :: product where
  "gadget =
     \<lparr> id_pk = 2, created_at = 2000, updated_at = None,
       created_by = Some 7, updated_by = None,
       name = Some ''Gadget'', description = None,
       sku = ''GADGET-001'', price = Some (1999 / 100), quantity = 0,
       is_active = True, is_published = False, published_at = None,
       category_id = Some 11 \<rparr>"

definition cheap_duplicate :: ProductCreate where
  "cheap_duplicate =
     \<lparr> name_c = ''Copy'', description_c = None, price_c = 1 / 1000,
       sku_c = ''WIDGET-001'', category_id_c = 10 \<rparr>"

definition priced_duplicate :: ProductCreate where
  "priced_duplicate =
     \<lparr> name_c = ''Another Product'', description_c = None, price_c = 1999 / 100,
       sku_c = ''WIDGET-001'', category_id_c = 10 \<rparr>"

definition lowercase_request :: ProductCreate where
  "lowercase_request =
     \<lparr> name_c = ''Premium Widget'', description_c = None, price_c = 2999 / 100,
       sku_c = ''widget-001'', category_id_c = 10 \<rparr>"

text \<open>A payload that names \<open>name\<close> and, with the value null, \<open>description\<close>.\<close>

definition rename_widget :: ProductUpdate where
  "rename_widget =
     \<lparr> name_u = Some ''Updated Name'', description_u = None, price_u = None,
       category_id_u = None, model_fields_set = {F_name, F_description} \<rparr>"

definition reversed_range :: query_payload where
  "reversed_range =
     \<lparr> skip_in = None, limit_in = Some 10, category_id_in = None,
       min_price_in = Some (Some 10), max_price_in = Some (Some 5), search_in = None \<rparr>"

text \<open>
  An \<^verbatim>\<open>ILIKE\<close> for the examples: \<^verbatim>\<open>%\<close> stands for any string, \<^verbatim>\<open>_\<close> for any character,
  letters match in either case.
\<close>

fun like_match :: "string \<Rightarrow> string \<Rightarrow> bool" where
  "like_match [] v = (v = [])"
| "like_match (c # pattern) [] = (c = CHR ''%'' \<and> like_match pattern [])"
| "like_match (c # pattern) (x # v) =
     (if c = CHR ''%'' then like_match pattern (x # v) \<or> like_match (c # pattern) v
      else (c = CHR ''_'' \<or> c = x) \<and> like_match pattern v)"

definition sql_ilike :: "string \<Rightarrow> string \<Rightarrow> bool" where
  "sql_ilike v pattern = like_match (str_upper pattern) (str_upper v)"

text \<open>Twenty-five products of category 10, and one of another category.\<close>

definition numbered :: "nat \<Rightarrow> product" where
  "numbered i = widget\<lparr>id_pk := 100 + of_nat i, created_at := 3000 + int i,
                       name := Some ''Product'', sku := ''SKU-'' @ replicate i CHR ''I''\<rparr>"

definition fixture :: db where
  "fixture = gadget # map numbered [0..<25]"

text \<open>The categories and users that the examples refer to.\<close>

definition shop :: referenced where
  "shop = \<lparr> categories = {10, 11}, users = {7, 8} \<rparr>"

text \<open>A payload that names \<open>name\<close> with the value null.\<close>

definition unname_widget :: ProductUpdate where
  "unname_widget =
     \<lparr> name_u = None, description_u = None, price_u = None,
       category_id_u = None, model_fields_set = {F_name} \<rparr>"

text \<open>
  Twenty-five products created at the same time, and two ranks for them: the order of
  storage, and its reverse.
\<close>

definition tied :: "nat \<Rightarrow> product" where
  "tied i = widget\<lparr>id_pk := 100 + of_nat i, created_at := 3000,
                   name := Some ''Product'', sku := ''SKU-'' @ replicate i CHR ''I''\<rparr>"

definition tied_fixture :: db where
  "tied_fixture = map tied [0..<25]"

definition storage_order :: "product \<Rightarrow> nat" where
  "storage_order p = 0"

definition reverse_order :: "product \<Rightarrow> nat" where
  "reverse_order p = 200 - unat (id_pk p)"

text \<open>A request that can be stored, and a payload whose price has a third decimal place.\<close>

definition fresh_request :: ProductCreate where
  "fresh_request =
     \<lparr> name_c = ''New Product'', description_c = Some ''A great product'',
       price_c = 2999 / 100, sku_c = ''NEW-001'', category_id_c = 10 \<rparr>"

definition imprecise_price :: ProductUpdate where
  "imprecise_price =
     \<lparr> name_u = None, description_u = None, price_u = Some (29991 / 1000),
       category_id_u = None, model_fields_set = {F_price} \<rparr>"

section \<open>Looking a row up\<close>

lemma filter_key_unique:
  "distinct (map f xs) \<Longrightarrow> x \<in> set xs \<Longrightarrow> filter (\<lambda>y. f y = f x) xs = [x]"
proof (induction xs)
  case Nil
  then show ?case by simp
next
  case (Cons a xs)
  show ?case
  proof (cases "a = x")
    case True
    with Cons.prems have "\<forall>y\<in>set xs. f y \<noteq> f x" by (auto simp: image_iff)
    then have "filter (\<lambda>y. f y = f x) xs = []" by (simp add: filter_empty_conv)
    with True show ?thesis by simp
  next
    case False
    with Cons.prems have "x \<in> set xs" and "f a \<noteq> f x" by (auto simp: image_iff)
    with Cons show ?thesis by simp
  qed
qed

lemma scalar_one_or_none_Some:
  "scalar_one_or_none xs = Inr (Some x) \<longleftrightarrow> xs = [x]"
  by (cases xs rule: scalar_one_or_none.cases) auto

lemma get_by_id_Inr:
  "get_by_id rows pid = Inr p \<longleftrightarrow> filter (\<lambda>r. id_pk r = pid) rows = [p]"
  by (auto simp: get_by_id_def scalar_one_or_none_Some split: sum.splits option.splits)

lemma get_by_id_key: "get_by_id rows pid = Inr p \<Longrightarrow> id_pk p = pid \<and> p \<in> set rows"
proof -
  assume "get_by_id rows pid = Inr p"
  then have "filter (\<lambda>r. id_pk r = pid) rows = [p]" by (simp add: get_by_id_Inr)
  then have "p \<in> set (filter (\<lambda>r. id_pk r = pid) rows)" by simp
  then show ?thesis by simp
qed

lemma filter_replace_row:
  "id_pk p' = pid \<Longrightarrow>
   filter (\<lambda>r. id_pk r = pid) (replace_row pid p' rows)
     = map (\<lambda>r. p') (filter (\<lambda>r. id_pk r = pid) rows)"
  by (induction rows) (auto simp: replace_row_def)

lemma get_by_id_replace_row:
  "get_by_id rows pid = Inr p \<Longrightarrow> id_pk p' = pid \<Longrightarrow>
   get_by_id (replace_row pid p' rows) pid = Inr p'"
  by (simp add: get_by_id_Inr filter_replace_row)

lemma get_by_id_missing:
  "product_id \<notin> id_pk ` set rows \<Longrightarrow> get_by_id rows product_id = Inl (NotFoundError product_id)"
proof -
  assume "product_id \<notin> id_pk ` set rows"
  then have "filter (\<lambda>p. id_pk p = product_id) rows = []"
    by (auto simp: filter_empty_conv)
  then show ?thesis by (simp add: get_by_id_def)
qed

lemma replace_row_same:
  assumes "get_by_id rows pid = Inr p"
  shows "replace_row pid p rows = rows"
proof -
  from assms have f: "filter (\<lambda>r. id_pk r = pid) rows = [p]"
    by (simp add: get_by_id_Inr)
  have "r = p" if "r \<in> set rows" "id_pk r = pid" for r
  proof -
    from that have "r \<in> set (filter (\<lambda>r. id_pk r = pid) rows)" by simp
    with f show ?thesis by simp
  qed
  then show ?thesis
    unfolding replace_row_def by (intro map_idI) auto
qed

lemma widget_found: "get_by_id [widget, gadget] 1 = Inr widget"
  by (simp add: get_by_id_def widget_def gadget_def)

section \<open>Column types\<close>

lemma quantize_examples:
  "quantize (32989 / 1000) = 3299 / 100"
  "quantize (- (2999 / 100)) = - (2999 / 100)"
  "quantize (1 / 200) = 1 / 100"
  "quantize (- (1 / 200)) = - (1 / 100)"
  "quantize (1 / 250) = 0"
  by code_simp+

lemma quantize_fixed:
  assumes "decimal_places_le 2 v"
  shows "quantize v = v"
proof -
  from assms have "of_int \<lfloor>v * 10 ^ 2\<rfloor> = v * 10 ^ 2"
    unfolding decimal_places_le_def .
  then have "\<exists>n. v * 100 = of_int n" by simp
  then obtain k :: int where k: "v * 100 = of_int k" by blast
  then have v: "v = of_int k / 100" by simp
  have "\<bar>v\<bar> * 100 = \<bar>v * 100\<bar>" by (simp add: abs_mult)
  also have "\<dots> = of_int \<bar>k\<bar>" by (simp only: k of_int_abs)
  finally have m: "\<bar>v\<bar> * 100 = of_int \<bar>k\<bar>" .
  have "\<lfloor>of_int \<bar>k\<bar> + (1 / 2 :: rat)\<rfloor> = \<bar>k\<bar>"
    by (rule floor_unique) simp_all
  with m have "\<lfloor>\<bar>v\<bar> * 100 + 1 / 2\<rfloor> = \<bar>k\<bar>" by simp
  moreover have "sgn v = of_int (sgn k)"
    unfolding v by (simp add: sgn_if)
  ultimately have q: "quantize v = of_int (sgn k) * of_int \<bar>k\<bar> / 100"
    by (simp add: quantize_def)
  have "sgn k * \<bar>k\<bar> = k" by (simp add: sgn_if)
  then have "rat_of_int (sgn k) * of_int \<bar>k\<bar> = of_int k"
    by (metis of_int_mult)
  then show ?thesis
    unfolding q by (simp add: v)
qed

lemma widget_price_stored: "numeric_10_2 (2999 / 100) = Inr (2999 / 100)"
  "numeric_10_2 (29991 / 1000) = Inr (2999 / 100)"
  by code_simp+

lemma raised_widget_price:
  "numeric_10_2 (2999 / 100 * (11 / 10)) = Inr (3299 / 100)"
  "numeric_10_2 (2999 / 100 * (- 1)) = Inr (- (2999 / 100))"
  "quantize (2999 / 100 * (11 / 10)) = 3299 / 100"
  "numeric_10_2 (32989 / 1000) = Inr (3299 / 100)"
  "numeric_10_2 (- (2999 / 100)) = Inr (- (2999 / 100))"
  "quantize (32989 / 1000) = 3299 / 100"
  by code_simp+

section \<open>Creation\<close>

text \<open>
  C2. A \<open>create\<close> call whose price is below 0.01 fails with the validation error tagged
  \<open>InvalidPrice\<close> and leaves the table as it was, whatever the table holds: the price
  is tested before the sku is looked up, so a request that also collides on its sku
  fails on the price and not with \<open>DuplicateSKU\<close>.
\<close>

theorem create_invalid_price:
  assumes "price_c data < 1 / 100"
  shows "create refs rows data creator new_id now
           = (Inl (ValidationError InvalidPrice), rows)"
  using assms by (simp add: create_def)

theorem create_invalid_price_witness:
  "price_c cheap_duplicate < 1 / 100
   \<and> get_by_sku [widget, gadget] (sku_c cheap_duplicate) = Inr (Some widget)
   \<and> create shop [widget, gadget] cheap_duplicate 7 99 5000
       = (Inl (ValidationError InvalidPrice), [widget, gadget])"
proof -
  have low: "price_c cheap_duplicate < 1 / 100"
    by (simp add: cheap_duplicate_def)
  have hit: "get_by_sku [widget, gadget] (sku_c cheap_duplicate) = Inr (Some widget)"
    by (simp add: get_by_sku_def cheap_duplicate_def widget_def gadget_def)
  from low hit create_invalid_price [OF low, of shop "[widget, gadget]" 7 99 5000]
  show ?thesis by simp
qed

text \<open>
  C3, as stated, asks for \<open>DuplicateSKU\<close> whenever the sku is taken. A request whose sku
  is taken and whose price is below 0.01 fails on the price instead.
\<close>

theorem create_duplicate_sku_counterexample:
  "get_by_sku [widget, gadget] (sku_c cheap_duplicate) = Inr (Some widget)
   \<and> fst (create shop [widget, gadget] cheap_duplicate 7 99 5000)
       = Inl (ValidationError InvalidPrice)"
  by (simp add: get_by_sku_def create_def cheap_duplicate_def widget_def gadget_def)

text \<open>
  C3, amended. In a table whose skus are unique, a \<open>create\<close> call whose price is at
  least 0.01 and whose sku is the sku of an existing product fails with the conflict
  error tagged \<open>DuplicateSKU\<close>; the error carries the sku and the id of the existing
  product, and the table is left as it was.
\<close>

theorem create_duplicate_sku:
  assumes "\<not> price_c data < 1 / 100"
    and "distinct (map sku rows)"
    and "existing \<in> set rows"
    and "sku existing = sku_c data"
  shows "create refs rows data creator new_id now
           = (Inl (ConflictError DuplicateSKU (sku_c data) (id_pk existing)), rows)"
proof -
  have "filter (\<lambda>p. sku p = sku existing) rows = [existing]"
    using assms(2,3) by (rule filter_key_unique)
  then have "get_by_sku rows (sku_c data) = Inr (Some existing)"
    using assms(4) by (simp add: get_by_sku_def)
  with assms(1) show ?thesis by (simp add: create_def)
qed

theorem create_duplicate_sku_witness:
  "create shop [widget, gadget] priced_duplicate 7 99 5000
     = (Inl (ConflictError DuplicateSKU ''WIDGET-001'' 1), [widget, gadget])"
proof -
  have "\<not> price_c priced_duplicate < 1 / 100"
    by (simp add: priced_duplicate_def)
  moreover have "distinct (map sku [widget, gadget])"
    by (simp add: widget_def gadget_def)
  moreover have "widget \<in> set [widget, gadget]" by simp
  moreover have "sku widget = sku_c priced_duplicate"
    by (simp add: widget_def priced_duplicate_def)
  ultimately have "create shop [widget, gadget] priced_duplicate 7 99 5000
     = (Inl (ConflictError DuplicateSKU (sku_c priced_duplicate) (id_pk widget)),
        [widget, gadget])"
    by (rule create_duplicate_sku)
  then show ?thesis by (simp add: widget_def priced_duplicate_def)
qed

lemma create_examples:
  "create shop [widget, gadget] fresh_request 7 99 5000
     = (Inr (new_product fresh_request 7 99 5000),
        [widget, gadget, new_product fresh_request 7 99 5000])"
  "create shop [widget, gadget] (fresh_request\<lparr>category_id_c := 12\<rparr>) 7 99 5000
     = (Inl (IntegrityError ''products_category_id_fkey''), [widget, gadget])"
  "create shop [widget, gadget] fresh_request 7 1 5000
     = (Inl (IntegrityError ''products_pkey''), [widget, gadget])"
  by (simp_all add: create_def get_by_sku_def insert_product_def new_product_def
      fresh_request_def widget_def gadget_def shop_def coerce_name_def coerce_price_def
      varchar_def widget_price_stored ck_products_positive_price_def references_def)

section \<open>Update\<close>

lemma setattr_frame:
  "id_pk (setattr p e) = id_pk p"
  "sku (setattr p e) = sku p"
  "quantity (setattr p e) = quantity p"
  "is_active (setattr p e) = is_active p"
  "is_published (setattr p e) = is_published p"
  "published_at (setattr p e) = published_at p"
  "created_at (setattr p e) = created_at p"
  "created_by (setattr p e) = created_by p"
  by (cases e; simp)+

lemma fold_setattr_frame:
  "id_pk (fold (\<lambda>item p. setattr p item) es p) = id_pk p"
  "sku (fold (\<lambda>item p. setattr p item) es p) = sku p"
  "quantity (fold (\<lambda>item p. setattr p item) es p) = quantity p"
  "is_active (fold (\<lambda>item p. setattr p item) es p) = is_active p"
  "is_published (fold (\<lambda>item p. setattr p item) es p) = is_published p"
  "published_at (fold (\<lambda>item p. setattr p item) es p) = published_at p"
  "created_at (fold (\<lambda>item p. setattr p item) es p) = created_at p"
  "created_by (fold (\<lambda>item p. setattr p item) es p) = created_by p"
  by (induction es arbitrary: p) (simp_all add: setattr_frame)

lemma fold_setattr_dump:
  "name (fold (\<lambda>item p. setattr p item) (model_dump_exclude_unset data) p)
     = (if F_name \<in> model_fields_set data then name_u data else name p)"
  "description (fold (\<lambda>item p. setattr p item) (model_dump_exclude_unset data) p)
     = (if F_description \<in> model_fields_set data then description_u data else description p)"
  "price (fold (\<lambda>item p. setattr p item) (model_dump_exclude_unset data) p)
     = (if F_price \<in> model_fields_set data then price_u data else price p)"
  "category_id (fold (\<lambda>item p. setattr p item) (model_dump_exclude_unset data) p)
     = (if F_category_id \<in> model_fields_set data then category_id_u data else category_id p)"
  by (simp_all add: model_dump_exclude_unset_def)

lemma set_model_dump:
  "x \<in> set (model_dump_exclude_unset data) \<longleftrightarrow>
     (F_name \<in> model_fields_set data \<and> x = Name_entry (name_u data))
     \<or> (F_description \<in> model_fields_set data \<and> x = Description_entry (description_u data))
     \<or> (F_price \<in> model_fields_set data \<and> x = Price_entry (price_u data))
     \<or> (F_category_id \<in> model_fields_set data \<and> x = Category_id_entry (category_id_u data))"
  by (auto simp: model_dump_exclude_unset_def)

lemma first_violation_None:
  "first_violation test xs = None \<longleftrightarrow> (\<forall>x\<in>set xs. test x = None)"
  by (induction xs) (auto split: option.splits)

lemma coerce_all_fixed:
  "(\<forall>x\<in>set xs. coerce_entry x = Inr x) \<Longrightarrow> coerce_all xs = Inr xs"
  by (induction xs) simp_all

lemma coerce_all_Inr:
  "coerce_all xs = Inr ys \<Longrightarrow> (\<forall>x\<in>set xs. \<forall>y. coerce_entry x = Inr y \<longrightarrow> y = x) \<Longrightarrow> ys = xs"
  by (induction xs arbitrary: ys) (auto split: sum.splits)

lemma coerce_all_frame:
  "coerce_all xs = Inr ys \<Longrightarrow>
   id_pk (fold (\<lambda>item p. setattr p item) ys p) = id_pk p"
  by (simp add: fold_setattr_frame)

lemma varchar_fits: "length v \<le> n \<Longrightarrow> varchar n v = Inr v"
  by (simp add: varchar_def)

lemma name_field_Inr: "name_field v = Inr w \<Longrightarrow> length v \<le> 200"
  by (simp add: name_field_def str_constraints_def split: if_splits)

lemma price_field_Inr: "price_field v = Inr w \<Longrightarrow> decimal_places_le 2 v \<and> 0 < v"
  by (simp add: price_field_def split: if_splits)

lemma coerce_entry_valid:
  assumes "ProductUpdate_valid data" and "x \<in> set (model_dump_exclude_unset data)"
    and "coerce_entry x = Inr y"
  shows "y = x"
proof -
  have n: "coerce_name (name_u data) = Inr (name_u data)"
  proof (cases "name_u data")
    case None
    then show ?thesis by (simp add: coerce_name_def)
  next
    case (Some v)
    with assms(1) have "length v \<le> 200"
      by (auto simp: ProductUpdate_valid_def dest: name_field_Inr)
    with Some show ?thesis by (simp add: coerce_name_def varchar_fits)
  qed
  have p: "z = price_u data" if "coerce_price (price_u data) = Inr z" for z
  proof (cases "price_u data")
    case None
    with that show ?thesis by (simp add: coerce_price_def)
  next
    case (Some v)
    with assms(1) have "quantize v = v"
      by (auto simp: ProductUpdate_valid_def dest: price_field_Inr intro: quantize_fixed)
    with Some that show ?thesis
      by (auto simp: coerce_price_def numeric_10_2_def split: if_splits)
  qed
  from assms(2) consider
      "x = Name_entry (name_u data)" | "x = Description_entry (description_u data)"
    | "x = Price_entry (price_u data)" | "x = Category_id_entry (category_id_u data)"
    by (auto simp: set_model_dump)
  then show ?thesis
  proof cases
    case 1
    with assms(3) n show ?thesis by auto
  next
    case 2
    with assms(3) show ?thesis by simp
  next
    case 3
    with assms(3) p show ?thesis by (cases "coerce_price (price_u data)") auto
  next
    case 4
    with assms(3) show ?thesis by simp
  qed
qed

lemma execute_update_valid:
  assumes "ProductUpdate_valid data"
    and "execute_update refs (model_dump_exclude_unset data) editor = Inr stored"
  shows "stored = model_dump_exclude_unset data"
proof -
  from assms(2) have "coerce_all (model_dump_exclude_unset data) = Inr stored"
    by (auto simp: execute_update_def split: sum.splits option.splits if_splits)
  then show ?thesis
    using coerce_entry_valid [OF assms(1)] by (intro coerce_all_Inr) auto
qed

lemma update_cases:
  assumes "get_by_id rows product_id = Inr p"
  shows "update refs rows product_id data editor now =
           (if (fold (\<lambda>item q. setattr q item) (model_dump_exclude_unset data) p)
                 \<lparr>updated_by := Some editor\<rparr> = p
            then (Inr p, rows)
            else case execute_update refs (model_dump_exclude_unset data) editor of
                   Inl e \<Rightarrow> (Inl e, rows)
                 | Inr stored \<Rightarrow>
                     (Inr ((fold (\<lambda>item q. setattr q item) stored p)
                             \<lparr>updated_by := Some editor, updated_at := Some now\<rparr>),
                      replace_row product_id
                        ((fold (\<lambda>item q. setattr q item) stored p)
                             \<lparr>updated_by := Some editor, updated_at := Some now\<rparr>) rows))"
  using assms by (simp add: update_def Let_def split: sum.splits)

lemma execute_update_Inr:
  assumes "execute_update refs xs editor = Inr stored"
  shows "coerce_all xs = Inr stored"
    and "first_violation not_null_entry stored = None"
    and "first_violation check_entry stored = None"
    and "first_violation (foreign_key_entry refs) stored = None"
  using assms
  by (auto simp: execute_update_def split: sum.splits option.splits if_splits)

lemma execute_update_accepts:
  assumes "ProductUpdate_valid data"
    and "F_name \<in> model_fields_set data \<longrightarrow> name_u data \<noteq> None"
    and "F_price \<in> model_fields_set data \<longrightarrow> (\<exists>v. price_u data = Some v \<and> v < 10 ^ 8)"
    and "F_category_id \<in> model_fields_set data \<longrightarrow>
           (\<exists>c. category_id_u data = Some c \<and> c \<in> categories refs)"
    and "editor \<in> users refs"
  shows "execute_update refs (model_dump_exclude_unset data) editor
           = Inr (model_dump_exclude_unset data)"
proof -
  let ?dump = "model_dump_exclude_unset data"
  have c: "coerce_entry x = Inr x" if "x \<in> set ?dump" for x
  proof -
    from that consider
        "F_name \<in> model_fields_set data" "x = Name_entry (name_u data)"
      | "x = Description_entry (description_u data)"
      | "F_price \<in> model_fields_set data" "x = Price_entry (price_u data)"
      | "x = Category_id_entry (category_id_u data)"
      by (auto simp: set_model_dump)
    then show ?thesis
    proof cases
      case 1
      with assms(2) obtain v where v: "name_u data = Some v" by auto
      with assms(1) have "length v \<le> 200"
        by (auto simp: ProductUpdate_valid_def dest: name_field_Inr)
      with 1 v show ?thesis by (simp add: coerce_name_def varchar_fits)
    next
      case 2
      then show ?thesis by simp
    next
      case 3
      with assms(3) obtain v where v: "price_u data = Some v" "v < 10 ^ 8" by auto
      from assms(1) v have "price_field v = Inr v"
        by (simp add: ProductUpdate_valid_def)
      then have "decimal_places_le 2 v" "0 < v"
        using price_field_Inr by blast+
      then have "quantize v = v" "0 < v"
        by (simp_all add: quantize_fixed)
      with 3 v show ?thesis by (simp add: coerce_price_def numeric_10_2_def)
    next
      case 4
      then show ?thesis by simp
    qed
  qed
  then have co: "coerce_all ?dump = Inr ?dump" by (intro coerce_all_fixed) simp
  have nn: "first_violation not_null_entry ?dump = None"
    unfolding first_violation_None using assms(2-4) by (auto simp: set_model_dump)
  have ck: "first_violation check_entry ?dump = None"
  proof -
    have "0 < v" if "price_u data = Some v" for v
    proof -
      from assms(1) that have "price_field v = Inr v"
        by (simp add: ProductUpdate_valid_def)
      then show ?thesis using price_field_Inr by blast
    qed
    then have "ck_products_positive_price (price_u data)"
      by (cases "price_u data") (simp_all add: ck_products_positive_price_def)
    then show ?thesis
      unfolding first_violation_None by (auto simp: set_model_dump)
  qed
  have fk: "first_violation (foreign_key_entry refs) ?dump = None"
    unfolding first_violation_None using assms(4)
    by (auto simp: set_model_dump references_def)
  from co nn ck fk assms(5) show ?thesis
    by (simp add: execute_update_def references_def)
qed

lemma execute_update_null:
  assumes "x \<in> set xs" and "not_null_entry x \<noteq> None"
    and "\<forall>x\<in>set xs. \<forall>y. coerce_entry x = Inr y \<longrightarrow> y = x"
  shows "\<exists>e. execute_update refs xs editor = Inl e"
proof (cases "execute_update refs xs editor")
  case (Inl e)
  then show ?thesis by blast
next
  case (Inr stored)
  then have "coerce_all xs = Inr stored" "first_violation not_null_entry stored = None"
    by (rule execute_update_Inr)+
  with assms(3) have "first_violation not_null_entry xs = None"
    using coerce_all_Inr by blast
  with assms(1,2) show ?thesis by (simp add: first_violation_None)
qed

text \<open>
  C1, amended. Take an \<open>update\<close> of an existing product with a payload that meets the
  constraints of \<^verbatim>\<open>ProductUpdate\<close>. If the call raises, the table is as before. If it
  returns, the returned product is the row now stored, and each of the four fields of
  the payload schema has in it the value of the payload when the payload names the
  field, null included, and the value it had before when the payload leaves the field
  out: what decides is the presence of the field, not its value. The call returns when
  no named \<open>name\<close>, \<open>price\<close> or \<open>category_id\<close> is null, a named price is below
  \<open>10\<^sup>8\<close>, a named category exists and the editor is a user. It raises when the payload
  names with the value null one of \<open>name\<close>, \<open>price\<close> and \<open>category_id\<close>, for which the
  product has a value.
\<close>

theorem update_applies_present_fields:
  assumes "get_by_id rows product_id = Inr p" and "ProductUpdate_valid data"
  shows "(case update refs rows product_id data editor now of
            (Inl e, rows') \<Rightarrow> rows' = rows
          | (Inr p', rows') \<Rightarrow>
              rows' = replace_row product_id p' rows
              \<and> get_by_id rows' product_id = Inr p'
              \<and> name p' = (if F_name \<in> model_fields_set data then name_u data else name p)
              \<and> description p' = (if F_description \<in> model_fields_set data
                                   then description_u data else description p)
              \<and> price p' = (if F_price \<in> model_fields_set data
                             then price_u data else price p)
              \<and> category_id p' = (if F_category_id \<in> model_fields_set data
                                   then category_id_u data else category_id p))
         \<and> ((F_name \<in> model_fields_set data \<longrightarrow> name_u data \<noteq> None)
             \<and> (F_price \<in> model_fields_set data
                  \<longrightarrow> (\<exists>v. price_u data = Some v \<and> v < 10 ^ 8))
             \<and> (F_category_id \<in> model_fields_set data
                  \<longrightarrow> (\<exists>c. category_id_u data = Some c \<and> c \<in> categories refs))
             \<and> editor \<in> users refs
             \<longrightarrow> (\<exists>p'. fst (update refs rows product_id data editor now) = Inr p'))
         \<and> ((F_name \<in> model_fields_set data \<and> name_u data = None \<and> name p \<noteq> None)
             \<or> (F_price \<in> model_fields_set data \<and> price_u data = None \<and> price p \<noteq> None)
             \<or> (F_category_id \<in> model_fields_set data \<and> category_id_u data = None
                 \<and> category_id p \<noteq> None)
             \<longrightarrow> (\<exists>e. update refs rows product_id data editor now = (Inl e, rows)))"
proof (intro conjI impI)
  let ?dump = "model_dump_exclude_unset data"
  let ?assigned = "fold (\<lambda>item q. setattr q item) ?dump p"
  let ?stamped = "?assigned\<lparr>updated_by := Some editor\<rparr>"
  let ?stored = "?assigned\<lparr>updated_by := Some editor, updated_at := Some now\<rparr>"
  note cases = update_cases [OF assms(1), of refs data editor now]
  have fields:
    "name ?assigned = (if F_name \<in> model_fields_set data then name_u data else name p)"
    "description ?assigned = (if F_description \<in> model_fields_set data
                                   then description_u data else description p)"
    "price ?assigned = (if F_price \<in> model_fields_set data then price_u data else price p)"
    "category_id ?assigned = (if F_category_id \<in> model_fields_set data
                                   then category_id_u data else category_id p)"
    by (simp_all only: fold_setattr_dump)
  show "case update refs rows product_id data editor now of
            (Inl e, rows') \<Rightarrow> rows' = rows
          | (Inr p', rows') \<Rightarrow>
              rows' = replace_row product_id p' rows
              \<and> get_by_id rows' product_id = Inr p'
              \<and> name p' = (if F_name \<in> model_fields_set data then name_u data else name p)
              \<and> description p' = (if F_description \<in> model_fields_set data
                                   then description_u data else description p)
              \<and> price p' = (if F_price \<in> model_fields_set data
                             then price_u data else price p)
              \<and> category_id p' = (if F_category_id \<in> model_fields_set data
                                   then category_id_u data else category_id p)"
  proof (cases "?stamped = p")
    case True
    then have res: "update refs rows product_id data editor now = (Inr p, rows)"
      using cases by simp
    have "name ?stamped = name ?assigned" "description ?stamped = description ?assigned"
      "price ?stamped = price ?assigned" "category_id ?stamped = category_id ?assigned"
      by simp_all
    with True fields have
      "name p = (if F_name \<in> model_fields_set data then name_u data else name p)"
      "description p = (if F_description \<in> model_fields_set data
                                   then description_u data else description p)"
      "price p = (if F_price \<in> model_fields_set data then price_u data else price p)"
      "category_id p = (if F_category_id \<in> model_fields_set data
                                   then category_id_u data else category_id p)"
      by simp_all
    with res assms(1) show ?thesis
      by (simp add: replace_row_same)
  next
    case False
    show ?thesis
    proof (cases "execute_update refs ?dump editor")
      case (Inl e)
      with False cases show ?thesis by simp
    next
      case (Inr stored)
      with assms(2) have "stored = ?dump" by (rule execute_update_valid)
      with Inr False cases
      have res: "update refs rows product_id data editor now
                   = (Inr ?stored, replace_row product_id ?stored rows)"
        by simp
      have "id_pk ?stored = product_id"
        using get_by_id_key [OF assms(1)] by (simp add: fold_setattr_frame)
      with assms(1) have "get_by_id (replace_row product_id ?stored rows) product_id
                            = Inr ?stored"
        by (rule get_by_id_replace_row)
      with res fields show ?thesis by simp
    qed
  qed
next
  let ?dump = "model_dump_exclude_unset data"
  let ?stamped = "(fold (\<lambda>item q. setattr q item) ?dump p)\<lparr>updated_by := Some editor\<rparr>"
  assume ok: "(F_name \<in> model_fields_set data \<longrightarrow> name_u data \<noteq> None)
             \<and> (F_price \<in> model_fields_set data
                  \<longrightarrow> (\<exists>v. price_u data = Some v \<and> v < 10 ^ 8))
             \<and> (F_category_id \<in> model_fields_set data
                  \<longrightarrow> (\<exists>c. category_id_u data = Some c \<and> c \<in> categories refs))
             \<and> editor \<in> users refs"
  then have "execute_update refs ?dump editor = Inr ?dump"
    using assms(2) by (intro execute_update_accepts) simp_all
  then show "\<exists>p'. fst (update refs rows product_id data editor now) = Inr p'"
    using update_cases [OF assms(1), of refs data editor now]
    by (cases "?stamped = p") simp_all
next
  let ?dump = "model_dump_exclude_unset data"
  let ?assigned = "fold (\<lambda>item q. setattr q item) ?dump p"
  let ?stamped = "?assigned\<lparr>updated_by := Some editor\<rparr>"
  assume null: "(F_name \<in> model_fields_set data \<and> name_u data = None \<and> name p \<noteq> None)
             \<or> (F_price \<in> model_fields_set data \<and> price_u data = None \<and> price p \<noteq> None)
             \<or> (F_category_id \<in> model_fields_set data \<and> category_id_u data = None
                 \<and> category_id p \<noteq> None)"
  have "name ?stamped = name ?assigned" "price ?stamped = price ?assigned"
    "category_id ?stamped = category_id ?assigned"
    by simp_all
  with null have changed: "?stamped \<noteq> p"
    by (auto simp only: fold_setattr_dump split: if_splits)
  from null have "Name_entry None \<in> set ?dump \<or> Price_entry None \<in> set ?dump
                    \<or> Category_id_entry None \<in> set ?dump"
    by (auto simp: set_model_dump)
  moreover have "not_null_entry (Name_entry None) \<noteq> None"
    "not_null_entry (Price_entry None) \<noteq> None"
    "not_null_entry (Category_id_entry None) \<noteq> None"
    by simp_all
  ultimately obtain x where "x \<in> set ?dump" "not_null_entry x \<noteq> None"
    by blast
  moreover have "\<forall>x\<in>set ?dump. \<forall>y. coerce_entry x = Inr y \<longrightarrow> y = x"
    using coerce_entry_valid [OF assms(2)] by blast
  ultimately obtain e where "execute_update refs ?dump editor = Inl e"
    using execute_update_null by blast
  with changed update_cases [OF assms(1), of refs data editor now]
  show "\<exists>e. update refs rows product_id data editor now = (Inl e, rows)"
    by simp
qed

text \<open>
  C1, as stated, has every named field applied. A payload that names \<open>name\<close> with the
  value null, which \<^verbatim>\<open>ProductUpdate\<close> admits, is refused by the table: the call raises and
  the product keeps its name. A price that was not validated is stored rounded.
\<close>

theorem update_applies_present_fields_counterexample:
  "get_by_id [widget, gadget] 1 = Inr widget
   \<and> F_name \<in> model_fields_set unname_widget \<and> name_u unname_widget = None
   \<and> update shop [widget, gadget] 1 unname_widget 8 5000
       = (Inl (IntegrityError ''products.name''), [widget, gadget])
   \<and> F_price \<in> model_fields_set imprecise_price
   \<and> price_u imprecise_price = Some (29991 / 1000)
   \<and> fst (update shop [widget, gadget] 1 imprecise_price 8 5000)
       = Inr (widget\<lparr>updated_by := Some 8, updated_at := Some 5000\<rparr>)
   \<and> price widget = Some (2999 / 100)"
  by (simp add: widget_found update_def Let_def model_dump_exclude_unset_def
      unname_widget_def imprecise_price_def execute_update_def coerce_name_def
      coerce_price_def widget_price_stored ck_products_positive_price_def
      references_def shop_def)
     (simp add: widget_def)

lemma rename_valid: "ProductUpdate_valid rename_widget"
  by (simp add: ProductUpdate_valid_def rename_widget_def name_field_def str_constraints_def)

theorem update_applies_present_fields_witness:
  "get_by_id [widget, gadget] 1 = Inr widget \<and> ProductUpdate_valid rename_widget
   \<and> (\<exists>p'. update shop [widget, gadget] 1 rename_widget 8 5000 = (Inr p', [p', gadget])
         \<and> get_by_id [p', gadget] 1 = Inr p'
         \<and> name p' = Some ''Updated Name'' \<and> description p' = None
         \<and> price p' = Some (2999 / 100) \<and> category_id p' = Some 10)"
proof -
  note inst = update_applies_present_fields
               [OF widget_found rename_valid, of shop 8 5000]
  have ok: "(F_name \<in> model_fields_set rename_widget \<longrightarrow> name_u rename_widget \<noteq> None)
             \<and> (F_price \<in> model_fields_set rename_widget
                  \<longrightarrow> (\<exists>v. price_u rename_widget = Some v \<and> v < 10 ^ 8))
             \<and> (F_category_id \<in> model_fields_set rename_widget
                  \<longrightarrow> (\<exists>c. category_id_u rename_widget = Some c \<and> c \<in> categories shop))
             \<and> 8 \<in> users shop"
    by (simp add: rename_widget_def shop_def)
  with inst obtain p' where "fst (update shop [widget, gadget] 1 rename_widget 8 5000) = Inr p'"
    by blast
  then obtain rows' where res:
    "update shop [widget, gadget] 1 rename_widget 8 5000 = (Inr p', rows')"
    by (cases "update shop [widget, gadget] 1 rename_widget 8 5000") simp
  from inst have "case update shop [widget, gadget] 1 rename_widget 8 5000 of
            (Inl e, rows') \<Rightarrow> rows' = [widget, gadget]
          | (Inr p', rows') \<Rightarrow>
              rows' = replace_row 1 p' [widget, gadget]
              \<and> get_by_id rows' 1 = Inr p'
              \<and> name p' = (if F_name \<in> model_fields_set rename_widget
                           then name_u rename_widget else name widget)
              \<and> description p' = (if F_description \<in> model_fields_set rename_widget
                                   then description_u rename_widget else description widget)
              \<and> price p' = (if F_price \<in> model_fields_set rename_widget
                             then price_u rename_widget else price widget)
              \<and> category_id p' = (if F_category_id \<in> model_fields_set rename_widget
                                   then category_id_u rename_widget else category_id widget)"
    by (rule conjunct1)
  then have f: "rows' = replace_row 1 p' [widget, gadget]"
    "get_by_id rows' 1 = Inr p'"
    "name p' = (if F_name \<in> model_fields_set rename_widget
                then name_u rename_widget else name widget)"
    "description p' = (if F_description \<in> model_fields_set rename_widget
                       then description_u rename_widget else description widget)"
    "price p' = (if F_price \<in> model_fields_set rename_widget
                 then price_u rename_widget else price widget)"
    "category_id p' = (if F_category_id \<in> model_fields_set rename_widget
                       then category_id_u rename_widget else category_id widget)"
    unfolding res prod.case sum.case by blast+
  have r: "replace_row 1 p' [widget, gadget] = [p', gadget]"
    by (simp add: replace_row_def widget_def gadget_def)
  from f(3-6) have v: "name p' = Some ''Updated Name''" "description p' = None"
    "price p' = Some (2999 / 100)" "category_id p' = Some 10"
    by (simp_all add: rename_widget_def widget_def)
  from res f(1,2) r have "update shop [widget, gadget] 1 rename_widget 8 5000
                            = (Inr p', [p', gadget])"
    "get_by_id [p', gadget] 1 = Inr p'"
    by simp_all
  with v widget_found rename_valid show ?thesis by blast
qed

text \<open>
  C9. An \<open>update\<close> call for a product that is not found changes nothing. For a product
  that is found, either the table refuses the write and is left as it was, or the call
  replaces that row alone, and the new row has the \<open>id\<close>, \<open>sku\<close>, \<open>quantity\<close>,
  \<open>is_active\<close>, \<open>is_published\<close>, \<open>published_at\<close>, \<open>created_at\<close> and \<open>created_by\<close> of
  the old one: the payload has entries for \<open>name\<close>, \<open>description\<close>, \<open>price\<close> and
  \<open>category_id\<close> only, and the service stamps \<open>updated_by\<close>.
\<close>

theorem update_keeps_other_columns:
  "(case get_by_id rows product_id of
      Inl e \<Rightarrow> update refs rows product_id data editor now = (Inl e, rows)
    | Inr p \<Rightarrow>
        (\<exists>e. update refs rows product_id data editor now = (Inl e, rows))
        \<or> (\<exists>p'. update refs rows product_id data editor now
                 = (Inr p', map (\<lambda>r. if id_pk r = product_id then p' else r) rows)
           \<and> id_pk p' = id_pk p \<and> sku p' = sku p \<and> quantity p' = quantity p
           \<and> is_active p' = is_active p \<and> is_published p' = is_published p
           \<and> published_at p' = published_at p \<and> created_at p' = created_at p
           \<and> created_by p' = created_by p \<and> updated_by p' = Some editor))"
proof (cases "get_by_id rows product_id")
  case (Inl e)
  then show ?thesis by (simp add: update_def)
next
  case (Inr p)
  let ?dump = "model_dump_exclude_unset data"
  let ?stamped = "(fold (\<lambda>item q. setattr q item) ?dump p)\<lparr>updated_by := Some editor\<rparr>"
  note cases = update_cases [OF Inr, of refs data editor now]
  have "(\<exists>e. update refs rows product_id data editor now = (Inl e, rows))
        \<or> (\<exists>p'. update refs rows product_id data editor now
                 = (Inr p', replace_row product_id p' rows)
           \<and> id_pk p' = id_pk p \<and> sku p' = sku p \<and> quantity p' = quantity p
           \<and> is_active p' = is_active p \<and> is_published p' = is_published p
           \<and> published_at p' = published_at p \<and> created_at p' = created_at p
           \<and> created_by p' = created_by p \<and> updated_by p' = Some editor)"
  proof (cases "?stamped = p")
    case True
    then have "updated_by p = updated_by ?stamped" by simp
    then have "updated_by p = Some editor" by simp
    moreover from True cases
    have "update refs rows product_id data editor now = (Inr p, replace_row product_id p rows)"
      by (simp add: replace_row_same [OF Inr])
    ultimately show ?thesis by blast
  next
    case False
    show ?thesis
    proof (cases "execute_update refs ?dump editor")
      case (Inl e)
      with False cases show ?thesis by simp
    next
      case (Inr stored)
      let ?p' = "(fold (\<lambda>item q. setattr q item) stored p)
                   \<lparr>updated_by := Some editor, updated_at := Some now\<rparr>"
      from Inr False cases
      have "update refs rows product_id data editor now
              = (Inr ?p', replace_row product_id ?p' rows)"
        by simp
      moreover have "id_pk ?p' = id_pk p \<and> sku ?p' = sku p \<and> quantity ?p' = quantity p
           \<and> is_active ?p' = is_active p \<and> is_published ?p' = is_published p
           \<and> published_at ?p' = published_at p \<and> created_at ?p' = created_at p
           \<and> created_by ?p' = created_by p \<and> updated_by ?p' = Some editor"
        by (simp add: fold_setattr_frame)
      ultimately show ?thesis by blast
    qed
  qed
  with Inr show ?thesis by (simp add: replace_row_def)
qed

lemma rename_accepted:
  "\<not> isl (fst (update shop [widget, gadget] 1 rename_widget 8 5000))"
proof -
  have "execute_update shop (model_dump_exclude_unset rename_widget) 8
          = Inr (model_dump_exclude_unset rename_widget)"
    by (rule execute_update_accepts) (simp_all add: rename_valid, simp_all add: rename_widget_def shop_def)
  then show ?thesis
    using update_cases [OF widget_found, of shop rename_widget 8 5000]
    by (simp split: if_splits)
qed

theorem update_keeps_other_columns_witness:
  "\<exists>p'. update shop [widget, gadget] 1 rename_widget 8 5000 = (Inr p', [p', gadget])
         \<and> id_pk p' = 1 \<and> sku p' = ''WIDGET-001'' \<and> quantity p' = 3
         \<and> is_active p' \<and> \<not> is_published p' \<and> published_at p' = None
         \<and> created_at p' = 1000 \<and> created_by p' = Some 7 \<and> updated_by p' = Some 8"
proof -
  from update_keeps_other_columns [of shop "[widget, gadget]" 1 rename_widget 8 5000]
  have "(\<exists>e. update shop [widget, gadget] 1 rename_widget 8 5000 = (Inl e, [widget, gadget]))
        \<or> (\<exists>p'. update shop [widget, gadget] 1 rename_widget 8 5000
                 = (Inr p', map (\<lambda>r. if id_pk r = 1 then p' else r) [widget, gadget])
           \<and> id_pk p' = id_pk widget \<and> sku p' = sku widget \<and> quantity p' = quantity widget
           \<and> is_active p' = is_active widget \<and> is_published p' = is_published widget
           \<and> published_at p' = published_at widget \<and> created_at p' = created_at widget
           \<and> created_by p' = created_by widget \<and> updated_by p' = Some 8)"
    unfolding widget_found by simp
  with rename_accepted obtain p' where
    "update shop [widget, gadget] 1 rename_widget 8 5000
                 = (Inr p', map (\<lambda>r. if id_pk r = 1 then p' else r) [widget, gadget])"
    "id_pk p' = id_pk widget \<and> sku p' = sku widget \<and> quantity p' = quantity widget
           \<and> is_active p' = is_active widget \<and> is_published p' = is_published widget
           \<and> published_at p' = published_at widget \<and> created_at p' = created_at widget
           \<and> created_by p' = created_by widget \<and> updated_by p' = Some 8"
    by auto
  then show ?thesis
    by (intro exI [of _ p']) (simp add: widget_def gadget_def)
qed

section \<open>Publication\<close>

lemma publish_cases:
  "(product_id \<notin> id_pk ` set rows \<longrightarrow>
      publish rows product_id publisher now = (Inl (NotFoundError product_id), rows))
   \<and> (get_by_id rows product_id = Inr p \<and> (description p = None \<or> description p = Some [])
        \<longrightarrow> publish rows product_id publisher now
              = (Inl (ValidationError MissingDescription), rows))
   \<and> (get_by_id rows product_id = Inr p \<and> description p \<noteq> None \<and> description p \<noteq> Some []
        \<longrightarrow> (\<exists>r. publish rows product_id publisher now
                     = (Inr r, replace_row product_id (columns r) rows)
               \<and> is_published (columns r) \<and> published_at (columns r) = Some now
               \<and> published_by r = publisher
               \<and> get_by_id (replace_row product_id (columns r) rows) product_id
                   = Inr (columns r)))"
proof (intro conjI impI)
  assume "product_id \<notin> id_pk ` set rows"
  then show "publish rows product_id publisher now = (Inl (NotFoundError product_id), rows)"
    by (simp add: publish_def get_by_id_missing)
next
  assume "get_by_id rows product_id = Inr p \<and> (description p = None \<or> description p = Some [])"
  then show "publish rows product_id publisher now
              = (Inl (ValidationError MissingDescription), rows)"
    by (auto simp: publish_def)
next
  assume a: "get_by_id rows product_id = Inr p \<and> description p \<noteq> None \<and> description p \<noteq> Some []"
  let ?q = "p\<lparr>is_published := True, published_at := Some now, updated_at := Some now\<rparr>"
  let ?r = "\<lparr>columns = ?q, published_by = publisher\<rparr>"
  from a have res: "publish rows product_id publisher now
                 = (Inr ?r, replace_row product_id (columns ?r) rows)"
    by (simp add: publish_def Let_def)
  from a have "id_pk ?q = product_id"
    using get_by_id_key [of rows product_id p] by simp
  with a have "get_by_id (replace_row product_id ?q rows) product_id = Inr ?q"
    using get_by_id_replace_row [of rows product_id p ?q] by simp
  with res show "\<exists>r. publish rows product_id publisher now
                     = (Inr r, replace_row product_id (columns r) rows)
               \<and> is_published (columns r) \<and> published_at (columns r) = Some now
               \<and> published_by r = publisher
               \<and> get_by_id (replace_row product_id (columns r) rows) product_id
                   = Inr (columns r)"
    by (intro exI [of _ ?r]) simp
qed

lemma publish_table_ignores_actor:
  "snd (publish rows product_id publisher now) = snd (publish rows product_id other now)"
  by (simp add: publish_def Let_def split: sum.splits)

text \<open>
  C5. \<open>publish\<close> fails with \<open>NotFoundError\<close> when no row has the id, and with
  \<open>MissingDescription\<close>, leaving the table as it was, when the description is missing
  or empty (\<open>publish_cases\<close>). On success the row is stored published and with the time
  of publication, but not with the actor: the actor is an attribute of the returned
  instance only, and the table after the call is the same whoever publishes.
\<close>

theorem publish_actor_not_stored:
  "publish [widget, gadget] 1 8 5000
     = (Inr \<lparr>columns = widget\<lparr>is_published := True, published_at := Some 5000,
                                 updated_at := Some 5000\<rparr>,
             published_by = 8\<rparr>,
        [widget\<lparr>is_published := True, published_at := Some 5000,
                updated_at := Some 5000\<rparr>, gadget])
   \<and> snd (publish [widget, gadget] 1 9 5000) = snd (publish [widget, gadget] 1 8 5000)"
proof -
  have "description widget = Some ''A widget''"
    by (simp add: widget_def)
  moreover have "replace_row 1 q [widget, gadget] = [q, gadget]" for q
    by (simp add: replace_row_def widget_def gadget_def)
  ultimately show ?thesis
    by (simp add: publish_def widget_found Let_def)
qed

section \<open>Bulk change of prices\<close>

lemma all_rows_Inr:
  "all_rows xs = Inr ys \<Longrightarrow> length ys = length xs \<and> (\<forall>i<length xs. xs ! i = Inr (ys ! i))"
proof (induction xs arbitrary: ys)
  case Nil
  then show ?case by simp
next
  case (Cons x xs)
  then obtain y ys' where "x = Inr y" "all_rows xs = Inr ys'" "ys = y # ys'"
    by (auto split: sum.splits)
  with Cons.IH [of ys'] show ?case
    by (auto simp: nth_Cons split: nat.splits)
qed

lemma all_rows_Inl:
  "(\<exists>e. all_rows (map f xs) = Inl e) \<longleftrightarrow> (\<exists>x\<in>set xs. isl (f x))"
  by (induction xs) (auto split: sum.splits)

lemma quantize_nonpos: "v \<le> 0 \<Longrightarrow> quantize v \<le> 0"
proof -
  assume "v \<le> 0"
  then have "sgn v \<le> 0" by (simp add: sgn_if)
  moreover have "0 \<le> rat_of_int \<lfloor>\<bar>v\<bar> * 100 + 1 / 2\<rfloor> / 100"
    by simp
  ultimately have "sgn v * (rat_of_int \<lfloor>\<bar>v\<bar> * 100 + 1 / 2\<rfloor> / 100) \<le> 0"
    by (rule mult_nonpos_nonneg)
  then show ?thesis by (simp add: quantize_def)
qed

lemma multiply_price_Inr:
  "multiply_price multiplier now p = Inr q \<longleftrightarrow>
     (\<exists>x. price p = Some x \<and> \<bar>quantize (x * multiplier)\<bar> < 10 ^ 8
          \<and> 0 < quantize (x * multiplier)
          \<and> q = p\<lparr>price := Some (quantize (x * multiplier)), updated_at := Some now\<rparr>)"
  by (auto simp: multiply_price_def numeric_10_2_def ck_products_positive_price_def
      split: option.splits sum.splits if_splits)

lemma bulk_update_prices_cases:
  "bulk_update_prices rows category multiplier now =
     (case all_rows (map (\<lambda>p. if category_id p = Some category
                                then multiply_price multiplier now p else Inr p) rows) of
        Inl e \<Rightarrow> (Inl e, rows)
      | Inr rows' \<Rightarrow>
          (Inr (int (length (filter (\<lambda>p. category_id p = Some category) rows))), rows'))"
  by (simp add: bulk_update_prices_def)

lemma bulk_update_prices_refused:
  assumes "p \<in> set rows" "category_id p = Some category"
    and "price p = Some x" "quantize (x * multiplier) \<le> 0"
  shows "\<exists>e. bulk_update_prices rows category multiplier now = (Inl e, rows)"
proof -
  let ?f = "\<lambda>p. if category_id p = Some category
                 then multiply_price multiplier now p else Inr p"
  have "isl (?f p)"
  proof (cases "multiply_price multiplier now p")
    case (Inl e)
    with assms(2) show ?thesis by simp
  next
    case (Inr q)
    with assms(3,4) show ?thesis by (auto simp: multiply_price_Inr)
  qed
  with assms(1) have "\<exists>p\<in>set rows. isl (?f p)" by blast
  then obtain e where "all_rows (map ?f rows) = Inl e"
    unfolding all_rows_Inl [symmetric] by blast
  then show ?thesis by (simp add: bulk_update_prices_cases)
qed

text \<open>
  C6, amended. If \<open>bulk_update_prices\<close> raises, the table is as before. If it returns,
  it returns the number of rows of the category, every row of the category has for its
  price the product of its price and the multiplier, rounded to the two decimal places
  of the column and positive, and every other row is as before. It returns when every
  such product is positive after rounding and below \<open>10\<^sup>8\<close>. The service validates
  nothing, but the table does: when the rounded product of some row of the category is
  not positive, as it is for a positive price and a multiplier that is not positive,
  the call raises.
\<close>

theorem bulk_update_prices_effect:
  "(case bulk_update_prices rows category multiplier now of
      (Inl e, rows') \<Rightarrow> rows' = rows
    | (Inr n, rows') \<Rightarrow>
        n = int (length (filter (\<lambda>p. category_id p = Some category) rows))
        \<and> length rows' = length rows
        \<and> (\<forall>i < length rows.
             (category_id (rows ! i) = Some category \<longrightarrow>
                (\<exists>x. price (rows ! i) = Some x
                      \<and> price (rows' ! i) = Some (quantize (x * multiplier))
                      \<and> 0 < quantize (x * multiplier)))
             \<and> (category_id (rows ! i) \<noteq> Some category \<longrightarrow> rows' ! i = rows ! i)))
   \<and> ((\<forall>p\<in>set rows. category_id p = Some category \<longrightarrow>
          (\<exists>x. price p = Some x \<and> 0 < quantize (x * multiplier)
                \<and> quantize (x * multiplier) < 10 ^ 8))
        \<longrightarrow> (\<exists>n rows'. bulk_update_prices rows category multiplier now = (Inr n, rows')))
   \<and> ((\<exists>p\<in>set rows. category_id p = Some category
          \<and> (\<exists>x. price p = Some x \<and> quantize (x * multiplier) \<le> 0))
        \<longrightarrow> (\<exists>e. bulk_update_prices rows category multiplier now = (Inl e, rows)))
   \<and> (multiplier \<le> 0
        \<and> (\<exists>p\<in>set rows. category_id p = Some category \<and> (\<exists>x. price p = Some x \<and> 0 < x))
        \<longrightarrow> (\<exists>e. bulk_update_prices rows category multiplier now = (Inl e, rows)))"
proof (intro conjI impI)
  let ?f = "\<lambda>p. if category_id p = Some category
                 then multiply_price multiplier now p else Inr p"
  show "case bulk_update_prices rows category multiplier now of
      (Inl e, rows') \<Rightarrow> rows' = rows
    | (Inr n, rows') \<Rightarrow>
        n = int (length (filter (\<lambda>p. category_id p = Some category) rows))
        \<and> length rows' = length rows
        \<and> (\<forall>i < length rows.
             (category_id (rows ! i) = Some category \<longrightarrow>
                (\<exists>x. price (rows ! i) = Some x
                      \<and> price (rows' ! i) = Some (quantize (x * multiplier))
                      \<and> 0 < quantize (x * multiplier)))
             \<and> (category_id (rows ! i) \<noteq> Some category \<longrightarrow> rows' ! i = rows ! i))"
  proof (cases "all_rows (map ?f rows)")
    case (Inl e)
    then show ?thesis by (simp add: bulk_update_prices_cases)
  next
    case (Inr rows')
    then have len: "length rows' = length rows"
      and each: "\<forall>i<length rows. ?f (rows ! i) = Inr (rows' ! i)"
      using all_rows_Inr [of "map ?f rows" rows'] by simp_all
    have "(category_id (rows ! i) = Some category \<longrightarrow>
                (\<exists>x. price (rows ! i) = Some x
                      \<and> price (rows' ! i) = Some (quantize (x * multiplier))
                      \<and> 0 < quantize (x * multiplier)))
             \<and> (category_id (rows ! i) \<noteq> Some category \<longrightarrow> rows' ! i = rows ! i)"
      if "i < length rows" for i
    proof (cases "category_id (rows ! i) = Some category")
      case True
      from each that have "?f (rows ! i) = Inr (rows' ! i)" by blast
      with True have "multiply_price multiplier now (rows ! i) = Inr (rows' ! i)"
        by simp
      then obtain x where "price (rows ! i) = Some x" "0 < quantize (x * multiplier)"
        "rows' ! i = (rows ! i)\<lparr>price := Some (quantize (x * multiplier)),
                                 updated_at := Some now\<rparr>"
        unfolding multiply_price_Inr by blast
      with True show ?thesis by simp
    next
      case False
      from each that have "?f (rows ! i) = Inr (rows' ! i)" by blast
      with False show ?thesis by simp
    qed
    with Inr len show ?thesis by (simp add: bulk_update_prices_cases)
  qed
next
  let ?f = "\<lambda>p. if category_id p = Some category
                 then multiply_price multiplier now p else Inr p"
  assume ok: "\<forall>p\<in>set rows. category_id p = Some category \<longrightarrow>
          (\<exists>x. price p = Some x \<and> 0 < quantize (x * multiplier)
                \<and> quantize (x * multiplier) < 10 ^ 8)"
  have "\<not> isl (?f p)" if "p \<in> set rows" for p
  proof (cases "category_id p = Some category")
    case True
    with ok that obtain x where "price p = Some x" "0 < quantize (x * multiplier)"
      "quantize (x * multiplier) < 10 ^ 8"
      by blast
    then have "multiply_price multiplier now p
                 = Inr (p\<lparr>price := Some (quantize (x * multiplier)), updated_at := Some now\<rparr>)"
      unfolding multiply_price_Inr by simp
    with True show ?thesis by simp
  next
    case False
    then show ?thesis by simp
  qed
  then have "\<not> (\<exists>p\<in>set rows. isl (?f p))" by blast
  then have "\<not> (\<exists>e. all_rows (map ?f rows) = Inl e)"
    unfolding all_rows_Inl .
  then obtain rows' where "all_rows (map ?f rows) = Inr rows'"
    by (cases "all_rows (map ?f rows)") auto
  then show "\<exists>n rows'. bulk_update_prices rows category multiplier now = (Inr n, rows')"
    by (simp add: bulk_update_prices_cases)
next
  assume "\<exists>p\<in>set rows. category_id p = Some category
          \<and> (\<exists>x. price p = Some x \<and> quantize (x * multiplier) \<le> 0)"
  then show "\<exists>e. bulk_update_prices rows category multiplier now = (Inl e, rows)"
    using bulk_update_prices_refused by blast
next
  assume a: "multiplier \<le> 0
        \<and> (\<exists>p\<in>set rows. category_id p = Some category \<and> (\<exists>x. price p = Some x \<and> 0 < x))"
  then obtain p x where p: "p \<in> set rows" "category_id p = Some category"
    "price p = Some x" "0 < x"
    by blast
  with a have "x * multiplier \<le> 0" by (simp add: mult_le_0_iff)
  then have "quantize (x * multiplier) \<le> 0" by (rule quantize_nonpos)
  with p show "\<exists>e. bulk_update_prices rows category multiplier now = (Inl e, rows)"
    using bulk_update_prices_refused by blast
qed

text \<open>
  C6, as stated, has the price multiplied, a count returned and a price that may end
  up not positive. At the multiplier \<open>-1\<close> the call raises on the \<^verbatim>\<open>CHECK\<close> of the table,
  returns no count and changes no row; at the multiplier 1.1 the price stored is 32.99
  and not the product 32.989.
\<close>

theorem bulk_update_prices_effect_counterexample:
  "bulk_update_prices [widget, gadget] 10 (- 1) 5000
     = (Inl (IntegrityError ''ck_products_positive_price''), [widget, gadget])
   \<and> bulk_update_prices [widget, gadget] 10 (11 / 10) 5000
       = (Inr 1, [widget\<lparr>price := Some (3299 / 100), updated_at := Some 5000\<rparr>, gadget])
   \<and> (2999 / 100 :: decimal) * (11 / 10) \<noteq> 3299 / 100"
proof -
  have w: "category_id widget = Some 10" "price widget = Some (2999 / 100)"
    and g: "category_id gadget \<noteq> Some 10"
    by (simp_all add: widget_def gadget_def)
  show ?thesis
    by (simp add: bulk_update_prices_def multiply_price_def w g raised_widget_price
        ck_products_positive_price_def)
qed

theorem bulk_update_prices_effect_witness:
  "\<exists>rows'. bulk_update_prices [widget, gadget] 10 (11 / 10) 5000 = (Inr 1, rows')
     \<and> length rows' = 2
     \<and> price (rows' ! 0) = Some (3299 / 100)
     \<and> rows' ! 1 = gadget"
proof -
  have w: "category_id widget = Some 10" "price widget = Some (2999 / 100)"
    and g: "category_id gadget \<noteq> Some 10"
    by (simp_all add: widget_def gadget_def)
  note inst = bulk_update_prices_effect [of "[widget, gadget]" 10 "11 / 10" 5000]
  have "\<forall>p\<in>set [widget, gadget]. category_id p = Some 10 \<longrightarrow>
          (\<exists>x. price p = Some x \<and> 0 < quantize (x * (11 / 10))
                \<and> quantize (x * (11 / 10)) < 10 ^ 8)"
  proof (intro ballI impI)
    fix p
    assume "p \<in> set [widget, gadget]" "category_id p = Some 10"
    with g have p: "p = widget" by auto
    have "0 < quantize (2999 / 100 * (11 / 10)) \<and> quantize (2999 / 100 * (11 / 10)) < 10 ^ 8"
      by (simp only: raised_widget_price) simp
    with w(2) show "\<exists>x. price p = Some x \<and> 0 < quantize (x * (11 / 10))
                \<and> quantize (x * (11 / 10)) < 10 ^ 8"
      unfolding p by blast
  qed
  with inst obtain n rows' where
    res: "bulk_update_prices [widget, gadget] 10 (11 / 10) 5000 = (Inr n, rows')"
    by blast
  from inst have "case bulk_update_prices [widget, gadget] 10 (11 / 10) 5000 of
      (Inl e, rows') \<Rightarrow> rows' = [widget, gadget]
    | (Inr n, rows') \<Rightarrow>
        n = int (length (filter (\<lambda>p. category_id p = Some 10) [widget, gadget]))
        \<and> length rows' = length [widget, gadget]
        \<and> (\<forall>i < length [widget, gadget].
             (category_id ([widget, gadget] ! i) = Some 10 \<longrightarrow>
                (\<exists>x. price ([widget, gadget] ! i) = Some x
                      \<and> price (rows' ! i) = Some (quantize (x * (11 / 10)))
                      \<and> 0 < quantize (x * (11 / 10))))
             \<and> (category_id ([widget, gadget] ! i) \<noteq> Some 10
                  \<longrightarrow> rows' ! i = [widget, gadget] ! i))"
    by (rule conjunct1)
  then have f: "n = int (length (filter (\<lambda>p. category_id p = Some 10) [widget, gadget]))"
    "length rows' = length [widget, gadget]"
    "\<forall>i < length [widget, gadget].
             (category_id ([widget, gadget] ! i) = Some 10 \<longrightarrow>
                (\<exists>x. price ([widget, gadget] ! i) = Some x
                      \<and> price (rows' ! i) = Some (quantize (x * (11 / 10)))
                      \<and> 0 < quantize (x * (11 / 10))))
             \<and> (category_id ([widget, gadget] ! i) \<noteq> Some 10
                  \<longrightarrow> rows' ! i = [widget, gadget] ! i)"
    unfolding res prod.case sum.case by blast+
  from f(1) have n: "n = 1" by (simp add: w g)
  from f(3) have "category_id ([widget, gadget] ! 0) = Some 10 \<longrightarrow>
                (\<exists>x. price ([widget, gadget] ! 0) = Some x
                      \<and> price (rows' ! 0) = Some (quantize (x * (11 / 10))))"
    by auto
  with w(1) obtain x where x: "price widget = Some x"
    "price (rows' ! 0) = Some (quantize (x * (11 / 10)))"
    by auto
  from x(1) w(2) have "x = 2999 / 100" by simp
  with x(2) have zero: "price (rows' ! 0) = Some (3299 / 100)"
    by (simp only: raised_widget_price)
  from f(3) have "category_id ([widget, gadget] ! 1) \<noteq> Some 10
                  \<longrightarrow> rows' ! 1 = [widget, gadget] ! 1"
    by auto
  then have one: "rows' ! 1 = gadget" by (simp add: g)
  from res n f(2) zero one show ?thesis by (intro exI [of _ rows']) simp
qed

section \<open>Listing\<close>

lemma list_service_eq:
  "list_service ilike tie rows skip limit category search =
     (take limit (drop skip (sort_key (\<lambda>p. (- created_at p, tie p))
                    (filter (matches_filters ilike category search) rows))),
      int (length (filter (matches_filters ilike category search) rows)))"
proof -
  have "(case search of
           None \<Rightarrow> (case category of None \<Rightarrow> rows
                     | Some c \<Rightarrow> filter (\<lambda>p. category_id p = Some c) rows)
         | Some s \<Rightarrow>
             if s = [] then (case category of None \<Rightarrow> rows
                              | Some c \<Rightarrow> filter (\<lambda>p. category_id p = Some c) rows)
             else filter (\<lambda>p. case name p of None \<Rightarrow> False
                               | Some n \<Rightarrow> ilike n (''%'' @ s @ ''%''))
                    (case category of None \<Rightarrow> rows
                     | Some c \<Rightarrow> filter (\<lambda>p. category_id p = Some c) rows))
        = filter (matches_filters ilike category search) rows"
    by (cases category; cases search)
       (auto simp: matches_filters_def intro!: filter_cong)
  then show ?thesis
    by (simp add: list_service_def Let_def)
qed

lemma three_pages:
  assumes "length xs = 25"
  shows "length (take 10 (drop 0 xs)) = 10"
    and "length (take 10 (drop 10 xs)) = 10"
    and "length (take 10 (drop 20 xs)) = 5"
    and "take 10 (drop 0 xs) @ take 10 (drop 10 xs) @ take 10 (drop 20 xs) = xs"
proof -
  show "length (take 10 (drop 0 xs)) = 10" "length (take 10 (drop 10 xs)) = 10"
    "length (take 10 (drop 20 xs)) = 5"
    using assms by simp_all
  have a: "take 10 (drop 20 xs) = drop 20 xs" using assms by simp
  have b: "take 10 (drop 10 xs) @ drop 20 xs = drop 10 xs"
    using append_take_drop_id [of 10 "drop 10 xs"] by simp
  have c: "take 10 xs @ drop 10 xs = xs" by simp
  show "take 10 (drop 0 xs) @ take 10 (drop 10 xs) @ take 10 (drop 20 xs) = xs"
    by (simp add: a b)
qed

lemma sort_key_tie:
  assumes "distinct (map created_at xs)"
  shows "sort_key (\<lambda>p. (- created_at p, t p)) xs = sort_key (\<lambda>p. - created_at p) xs"
proof -
  let ?g = "\<lambda>p. (- created_at p, t p)"
  let ?f = "\<lambda>p. - created_at p"
  let ?ys = "sort_key ?g xs"
  have m: "mset ?ys = mset xs" by simp
  have "sorted (map ?g ?ys)" by (rule sorted_sort_key)
  then have "sorted_wrt (\<lambda>x y. ?g x \<le> ?g y) ?ys" by (simp only: sorted_map)
  then have "sorted_wrt (\<lambda>x y. ?f x \<le> ?f y) ?ys"
    by (rule sorted_wrt_mono_rel [rotated]) auto
  then have s: "sorted (map ?f ?ys)" by (simp only: sorted_map)
  have "mset (map created_at ?ys) = mset (map created_at xs)" by simp
  with assms have d: "distinct (map created_at ?ys)"
    using mset_eq_imp_distinct_iff by blast
  have "filter (\<lambda>x. ?f k = ?f x) ?ys = filter (\<lambda>x. ?f k = ?f x) xs" if "k \<in> set ?ys" for k
  proof -
    from that have "k \<in> set xs" by simp
    with assms have a: "filter (\<lambda>y. created_at y = created_at k) xs = [k]"
      by (rule filter_key_unique)
    from d that have b: "filter (\<lambda>y. created_at y = created_at k) ?ys = [k]"
      by (rule filter_key_unique)
    have e: "(\<lambda>x. ?f k = ?f x) = (\<lambda>y. created_at y = created_at k)"
      by auto
    show ?thesis by (simp only: e a b)
  qed
  with m have "sort_key ?f xs = ?ys" using s by (rule properties_for_sort_key)
  then show ?thesis by simp
qed

text \<open>
  C4, amended. The total that \<open>list_service\<close> returns is the number of rows of the whole
  table that meet the filter, so it is the same for every \<open>skip\<close> and \<open>limit\<close> and
  every order of ties. When twenty-five rows meet the filter, the pages at \<open>skip\<close> 0,
  10 and 20 with \<open>limit\<close> 10 have 10, 10 and 5 products and each comes with the total
  25. Together the three pages hold every one of the twenty-five rows as often as the
  table does when the three statements put rows of equal \<open>created_at\<close> in the same
  order, and so whenever the twenty-five rows differ in \<open>created_at\<close>.
\<close>

theorem list_total_counts_all_matches:
  "snd (list_service ilike tie rows skip limit category search)
     = int (length (filter (matches_filters ilike category search) rows))
   \<and> snd (list_service ilike tie rows skip limit category search)
       = snd (list_service ilike tie' rows skip' limit' category search)
   \<and> (length (filter (matches_filters ilike category search) rows) = 25 \<longrightarrow>
        length (fst (list_service ilike t1 rows 0 10 category search)) = 10
        \<and> length (fst (list_service ilike t2 rows 10 10 category search)) = 10
        \<and> length (fst (list_service ilike t3 rows 20 10 category search)) = 5
        \<and> snd (list_service ilike t1 rows 0 10 category search) = 25
        \<and> snd (list_service ilike t2 rows 10 10 category search) = 25
        \<and> snd (list_service ilike t3 rows 20 10 category search) = 25
        \<and> mset (fst (list_service ilike t1 rows 0 10 category search)
                 @ fst (list_service ilike t1 rows 10 10 category search)
                 @ fst (list_service ilike t1 rows 20 10 category search))
            = mset (filter (matches_filters ilike category search) rows)
        \<and> (distinct (map created_at (filter (matches_filters ilike category search) rows))
             \<longrightarrow> mset (fst (list_service ilike t1 rows 0 10 category search)
                        @ fst (list_service ilike t2 rows 10 10 category search)
                        @ fst (list_service ilike t3 rows 20 10 category search))
                   = mset (filter (matches_filters ilike category search) rows)))"
proof (intro conjI impI)
  let ?sel = "filter (matches_filters ilike category search) rows"
  let ?ord = "\<lambda>t. sort_key (\<lambda>p. (- created_at p, t p)) ?sel"
  assume n: "length ?sel = 25"
  then have l: "length (?ord t) = 25" for t :: "product \<Rightarrow> nat" by simp
  show "length (fst (list_service ilike t1 rows 0 10 category search)) = 10"
    using three_pages(1) [OF l] by (simp add: list_service_eq)
  show "length (fst (list_service ilike t2 rows 10 10 category search)) = 10"
    using three_pages(2) [OF l] by (simp add: list_service_eq)
  show "length (fst (list_service ilike t3 rows 20 10 category search)) = 5"
    using three_pages(3) [OF l] by (simp add: list_service_eq)
  show "snd (list_service ilike t1 rows 0 10 category search) = 25"
    "snd (list_service ilike t2 rows 10 10 category search) = 25"
    "snd (list_service ilike t3 rows 20 10 category search) = 25"
    using n by (simp_all add: list_service_eq)
  have "fst (list_service ilike t1 rows 0 10 category search)
                 @ fst (list_service ilike t1 rows 10 10 category search)
                 @ fst (list_service ilike t1 rows 20 10 category search) = ?ord t1"
    using three_pages(4) [OF l, of t1] by (simp add: list_service_eq)
  then show "mset (fst (list_service ilike t1 rows 0 10 category search)
                 @ fst (list_service ilike t1 rows 10 10 category search)
                 @ fst (list_service ilike t1 rows 20 10 category search))
            = mset ?sel"
    by (simp only: mset_sort)
  assume d: "distinct (map created_at ?sel)"
  then have same: "?ord t = sort_key (\<lambda>p. - created_at p) ?sel" for t :: "product \<Rightarrow> nat"
    by (rule sort_key_tie)
  have l': "length (sort_key (\<lambda>p. - created_at p) ?sel) = 25" using n by simp
  have "fst (list_service ilike t1 rows 0 10 category search)
                 @ fst (list_service ilike t2 rows 10 10 category search)
                 @ fst (list_service ilike t3 rows 20 10 category search)
          = sort_key (\<lambda>p. - created_at p) ?sel"
    using three_pages(4) [OF l'] by (simp add: list_service_eq same)
  then show "mset (fst (list_service ilike t1 rows 0 10 category search)
                        @ fst (list_service ilike t2 rows 10 10 category search)
                        @ fst (list_service ilike t3 rows 20 10 category search))
                   = mset ?sel"
    by (simp only: mset_sort)
qed (simp_all add: list_service_eq)

text \<open>
  C4, as stated, has the three pages hold every row once. The query orders by
  \<open>created_at\<close> alone: of twenty-five rows created at the same time, read in storage
  order for the first and the third page and in the reverse order for the second, one
  row is on two pages and another on none.
\<close>

lemma tied_pages:
  "fst (list_service sql_ilike storage_order tied_fixture 0 10 None None) = map tied [0..<10]"
  "fst (list_service sql_ilike reverse_order tied_fixture 10 10 None None)
     = map tied (rev [5..<15])"
  "fst (list_service sql_ilike storage_order tied_fixture 20 10 None None) = map tied [20..<25]"
  by code_simp+

theorem list_total_counts_all_matches_counterexample:
  "length (filter (matches_filters sql_ilike None None) tied_fixture) = 25
   \<and> tied 5 \<in> set (fst (list_service sql_ilike storage_order tied_fixture 0 10 None None))
   \<and> tied 5 \<in> set (fst (list_service sql_ilike reverse_order tied_fixture 10 10 None None))
   \<and> tied 15 \<notin> set (fst (list_service sql_ilike storage_order tied_fixture 0 10 None None)
                     @ fst (list_service sql_ilike reverse_order tied_fixture 10 10 None None)
                     @ fst (list_service sql_ilike storage_order tied_fixture 20 10 None None))"
proof -
  have "length (filter (matches_filters sql_ilike None None) tied_fixture) = 25"
    by (simp add: matches_filters_def tied_fixture_def)
  moreover have "inj tied"
    by (auto simp: inj_def tied_def dest!: arg_cong [of _ _ sku])
  then have "tied i = tied j \<longleftrightarrow> i = j" "tied i \<in> tied ` A \<longleftrightarrow> i \<in> A" for i j A
    by (simp_all add: inj_eq inj_image_mem_iff)
  then have "tied 5 \<in> set (map tied [0..<10])" "tied 5 \<in> set (map tied (rev [5..<15]))"
    "tied 15 \<notin> set (map tied [0..<10] @ map tied (rev [5..<15]) @ map tied [20..<25])"
    by simp_all
  ultimately show ?thesis by (simp only: tied_pages) simp
qed

lemma fixture_selected:
  "filter (matches_filters sql_ilike (Some 10) (Some ''duct'')) fixture = map numbered [0..<25]"
  by (simp add: fixture_def matches_filters_def numbered_def widget_def gadget_def
      sql_ilike_def str_upper_def upper_char_def filter_map o_def)

lemma numbered_times: "distinct (map created_at (map numbered [0..<25]))"
  by (simp add: distinct_map inj_on_def numbered_def o_def)

theorem list_total_counts_all_matches_witness:
  "length (filter (matches_filters sql_ilike (Some 10) (Some ''duct'')) fixture) = 25
   \<and> distinct (map created_at
         (filter (matches_filters sql_ilike (Some 10) (Some ''duct'')) fixture))
   \<and> length (fst (list_service sql_ilike storage_order fixture 0 10
                      (Some 10) (Some ''duct''))) = 10
   \<and> length (fst (list_service sql_ilike reverse_order fixture 10 10
                      (Some 10) (Some ''duct''))) = 10
   \<and> length (fst (list_service sql_ilike storage_order fixture 20 10
                      (Some 10) (Some ''duct''))) = 5
   \<and> mset (fst (list_service sql_ilike storage_order fixture 0 10 (Some 10) (Some ''duct''))
            @ fst (list_service sql_ilike reverse_order fixture 10 10 (Some 10) (Some ''duct''))
            @ fst (list_service sql_ilike storage_order fixture 20 10 (Some 10) (Some ''duct'')))
       = mset (filter (matches_filters sql_ilike (Some 10) (Some ''duct'')) fixture)
   \<and> snd (list_service sql_ilike reverse_order fixture 10 10 (Some 10) (Some ''duct'')) = 25"
proof -
  have n: "length (filter (matches_filters sql_ilike (Some 10) (Some ''duct'')) fixture) = 25"
    by (simp add: fixture_selected)
  have d: "distinct (map created_at
             (filter (matches_filters sql_ilike (Some 10) (Some ''duct'')) fixture))"
    by (simp only: fixture_selected numbered_times)
  from list_total_counts_all_matches
         [of sql_ilike storage_order fixture 0 10 "Some 10" "Some ''duct''"
             storage_order 0 10 storage_order reverse_order storage_order] n d
  show ?thesis by blast
qed

section \<open>Schemas\<close>

lemma price_ok: "price_field (2999 / 100) = Inr (2999 / 100)"
  by (simp add: price_field_def decimal_places_le_def)

lemma upper_char_sku:
  "c \<in> set ''ABCDEFGHIJKLMNOPQRSTUVWXYZ0123456789-'' \<Longrightarrow> upper_char c = c"
  unfolding upper_char_def by (simp, elim disjE) simp_all

lemma str_upper_sku:
  "list_all (\<lambda>c. c \<in> set ''ABCDEFGHIJKLMNOPQRSTUVWXYZ0123456789-'') v \<Longrightarrow> str_upper v = v"
  unfolding str_upper_def by (induction v) (simp_all add: upper_char_sku)

lemma sku_field_accepts:
  assumes "sku_field v = Inr s"
  shows "s = v \<and> sku_pattern s \<and> str_upper s = s \<and> length s \<le> 50"
proof -
  from assms have c: "str_constraints None (Some 50) (Some sku_pattern) v = Inr v"
    and s: "s = uppercase_sku v"
    by (auto simp: sku_field_def str_constraints_def split: if_splits sum.splits)
  from c have p: "sku_pattern v" and l: "length v \<le> 50"
    by (auto simp: str_constraints_def split: if_splits)
  from p have "str_upper v = v"
    by (simp add: sku_pattern_def str_upper_sku)
  with s p l show ?thesis by (simp add: uppercase_sku_def)
qed

lemma ProductCreate_validate_sku:
  assumes "ProductCreate_validate body = Inr data"
  shows "sku_c data = sku_c body \<and> sku_pattern (sku_c data) \<and> str_upper (sku_c data) = sku_c data"
proof -
  from assms have "sku_field (sku_c body) = Inr (sku_c data)"
    by (auto simp: ProductCreate_validate_def Let_def split: sum.splits)
  then show ?thesis using sku_field_accepts by blast
qed

lemma sku_lower: "sku_field ''widget-001'' = Inl string_pattern_mismatch"
  by (simp add: sku_field_def str_constraints_def sku_pattern_def)

lemma sku_upper: "sku_field ''WIDGET-001'' = Inr ''WIDGET-001''"
  by (simp add: sku_field_def str_constraints_def sku_pattern_def uppercase_sku_def
      str_upper_def upper_char_def)

lemma upper_lower: "uppercase_sku ''widget-001'' = ''WIDGET-001''"
  by (simp add: uppercase_sku_def str_upper_def upper_char_def)

lemma name_ok: "name_field ''Premium Widget'' = Inr ''Premium Widget''"
  by (simp add: name_field_def str_constraints_def)

text \<open>
  C7. The sku of an accepted request is in upper case and made of capital letters,
  digits and dashes (\<open>ProductCreate_validate_sku\<close>). A sku in lower case is not brought
  to upper case, though: the pattern is checked before \<open>uppercase_sku\<close> runs and
  rejects it, while the same request with the sku in capitals is accepted.
\<close>

theorem lowercase_sku_rejected:
  "sku_field ''widget-001'' = Inl string_pattern_mismatch
   \<and> ProductCreate_validate lowercase_request = Inl [(''sku'', string_pattern_mismatch)]
   \<and> uppercase_sku ''widget-001'' = ''WIDGET-001''
   \<and> ProductCreate_validate (lowercase_request\<lparr>sku_c := ''WIDGET-001''\<rparr>)
       = Inr (lowercase_request\<lparr>sku_c := ''WIDGET-001''\<rparr>)"
  by (simp add: lowercase_request_def ProductCreate_validate_def sku_lower sku_upper
      upper_lower name_ok description_field_def price_ok errors_of_def)

lemma max_price_rule:
  "max_price_greater_than_min (Some mx) (Some (Some mn))
     = (if mx < mn then Inl value_error else Inr (Some mx))"
  "max_price_greater_than_min None d = Inr None"
  "max_price_greater_than_min v None = Inr v"
  "max_price_greater_than_min v (Some None) = Inr v"
  by (simp_all add: max_price_greater_than_min_def)

lemma not_isl_Inr: "\<not> isl x \<Longrightarrow> \<exists>y. x = Inr y"
  by (cases x) simp_all

lemma query_both_supplied:
  assumes "min_price_in payload = Some (Some mn)" "max_price_in payload = Some (Some mx)"
    and "0 \<le> mn" "0 \<le> mx"
    and "\<not> isl (skip_field (skip_in payload))"
    and "\<not> isl (limit_field (limit_in payload))"
    and "\<not> isl (search_field (search_in payload))"
  shows "isl (ProductQueryParams_validate payload) \<longleftrightarrow> mx < mn"
proof -
  from assms(5-7) obtain sk li se where ok:
    "skip_field (skip_in payload) = Inr sk" "limit_field (limit_in payload) = Inr li"
    "search_field (search_in payload) = Inr se"
    by (blast dest: not_isl_Inr)
  have mn: "min_price_field (min_price_in payload) = Inr (Some mn)"
    using assms(1,3) by (simp add: min_price_field_def)
  have mx: "max_price_field (max_price_in payload) (Some (Some mn))
              = (if mx < mn then Inl value_error else Inr (Some mx))"
    using assms(2,4) by (simp add: max_price_field_def max_price_rule)
  show ?thesis
    by (simp add: ProductQueryParams_validate_def Let_def ok mn mx)
qed

lemma errors_of_other:
  "loc \<noteq> ''max_price'' \<Longrightarrow> (''max_price'', value_error) \<notin> set (errors_of loc r)"
  by (cases r) (simp_all add: errors_of_def)

lemma max_price_field_one_sided:
  assumes "v \<in> {None, Some None} \<or> d \<in> {None, Some None}"
  shows "max_price_field v d \<noteq> Inl value_error"
proof (cases v)
  case None
  then show ?thesis by (simp add: max_price_field_def)
next
  case (Some w)
  show ?thesis
  proof (cases w)
    case None
    with Some show ?thesis by (simp add: max_price_field_def max_price_rule)
  next
    case (Some x)
    with \<open>v = Some w\<close> assms have "d = None \<or> d = Some None" by simp
    with Some \<open>v = Some w\<close> show ?thesis
      by (auto simp: max_price_field_def max_price_rule)
  qed
qed

lemma query_one_sided:
  assumes "min_price_in payload \<in> {None, Some None} \<or> max_price_in payload \<in> {None, Some None}"
  shows "case ProductQueryParams_validate payload of
              Inl errs \<Rightarrow> (''max_price'', value_error) \<notin> set errs
            | Inr params \<Rightarrow> True"
proof -
  let ?mn = "min_price_field (min_price_in payload)"
  let ?d = "case ?mn of Inl e \<Rightarrow> None | Inr m \<Rightarrow> Some m"
  have "max_price_in payload \<in> {None, Some None} \<or> ?d \<in> {None, Some None}"
    using assms by (auto simp: min_price_field_def)
  then have "max_price_field (max_price_in payload) ?d \<noteq> Inl value_error"
    by (rule max_price_field_one_sided)
  then have m: "(''max_price'', value_error)
                  \<notin> set (errors_of ''max_price'' (max_price_field (max_price_in payload) ?d))"
    by (cases "max_price_field (max_price_in payload) ?d") (simp_all add: errors_of_def)
  have "\<And>errs. ProductQueryParams_validate payload = Inl errs \<Longrightarrow>
          errs = errors_of ''skip'' (skip_field (skip_in payload))
                 @ errors_of ''limit'' (limit_field (limit_in payload))
                 @ errors_of ''min_price'' ?mn
                 @ errors_of ''max_price'' (max_price_field (max_price_in payload) ?d)
                 @ errors_of ''search'' (search_field (search_in payload))"
    by (simp add: ProductQueryParams_validate_def Let_def split: sum.splits)
  then show ?thesis
    using m by (cases "ProductQueryParams_validate payload") (simp_all add: errors_of_other)
qed

text \<open>
  C8. Given both prices, the validator of \<open>max_price\<close> raises exactly when the maximum
  is below the minimum; equal prices pass, and so does a call with only one of the two.
  For a payload, all of whose fields meet their own constraints and which names both
  prices, validation fails exactly when the maximum is below the minimum; a payload
  that leaves one of the two out, or names it null, never gets the error of this rule.
\<close>

theorem max_price_not_below_min_price:
  "(max_price_greater_than_min (Some mx) (Some (Some mn)) = Inl value_error \<longleftrightarrow> mx < mn)
   \<and> max_price_greater_than_min (Some mn) (Some (Some mn)) = Inr (Some mn)
   \<and> max_price_greater_than_min None (Some (Some mn)) = Inr None
   \<and> max_price_greater_than_min (Some mx) (Some None) = Inr (Some mx)
   \<and> (min_price_in payload = Some (Some mn) \<and> max_price_in payload = Some (Some mx)
       \<and> 0 \<le> mn \<and> 0 \<le> mx \<and> \<not> isl (skip_field (skip_in payload))
       \<and> \<not> isl (limit_field (limit_in payload)) \<and> \<not> isl (search_field (search_in payload))
       \<longrightarrow> (isl (ProductQueryParams_validate payload) \<longleftrightarrow> mx < mn))
   \<and> (min_price_in payload \<in> {None, Some None} \<or> max_price_in payload \<in> {None, Some None}
       \<longrightarrow> (case ProductQueryParams_validate payload of
              Inl errs \<Rightarrow> (''max_price'', value_error) \<notin> set errs
            | Inr params \<Rightarrow> True))"
proof (intro conjI impI)
  assume "min_price_in payload = Some (Some mn) \<and> max_price_in payload = Some (Some mx)
       \<and> 0 \<le> mn \<and> 0 \<le> mx \<and> \<not> isl (skip_field (skip_in payload))
       \<and> \<not> isl (limit_field (limit_in payload)) \<and> \<not> isl (search_field (search_in payload))"
  then show "isl (ProductQueryParams_validate payload) \<longleftrightarrow> mx < mn"
    using query_both_supplied [of payload mn mx] by blast
next
  assume "min_price_in payload \<in> {None, Some None} \<or> max_price_in payload \<in> {None, Some None}"
  then show "case ProductQueryParams_validate payload of
              Inl errs \<Rightarrow> (''max_price'', value_error) \<notin> set errs
            | Inr params \<Rightarrow> True"
    by (rule query_one_sided)
qed (simp_all add: max_price_rule)

theorem max_price_not_below_min_price_witness:
  "isl (ProductQueryParams_validate reversed_range)
   \<and> \<not> isl (ProductQueryParams_validate (reversed_range\<lparr>max_price_in := Some (Some 10)\<rparr>))
   \<and> \<not> isl (ProductQueryParams_validate (reversed_range\<lparr>min_price_in := None\<rparr>))"
proof -
  have side: "\<not> isl (skip_field None)" "\<not> isl (limit_field (Some 10))"
    "\<not> isl (search_field None)"
    by (simp_all add: skip_field_def limit_field_def search_field_def)
  from max_price_not_below_min_price [of 5 10 reversed_range] side
  have a: "isl (ProductQueryParams_validate reversed_range)"
    by (simp add: reversed_range_def)
  from max_price_not_below_min_price
         [of 10 10 "reversed_range\<lparr>max_price_in := Some (Some 10)\<rparr>"] side
  have b: "\<not> isl (ProductQueryParams_validate (reversed_range\<lparr>max_price_in := Some (Some 10)\<rparr>))"
    by (simp add: reversed_range_def)
  have c: "\<not> isl (ProductQueryParams_validate (reversed_range\<lparr>min_price_in := None\<rparr>))"
    by (simp add: reversed_range_def ProductQueryParams_validate_def side skip_field_def
        limit_field_def search_field_def min_price_field_def max_price_field_def
        max_price_rule)
  from a b c show ?thesis by blast
qed

section \<open>The list response\<close>

lemma model_validate_all_length:
  "model_validate_all ps = Inr rs \<Longrightarrow> length rs = length ps"
  by (induction ps arbitrary: rs) (auto split: sum.splits)

lemma list_products_Inr:
  assumes "list_products ilike tie rows skip limit category search = Inr response"
  shows "model_validate_all
           (fst (list_service ilike tie rows (nat skip) (nat limit) category search))
           = Inr (items_l response)
         \<and> total_l response
             = snd (list_service ilike tie rows (nat skip) (nat limit) category search)
         \<and> skip_l response = skip \<and> limit_l response = limit"
  using assms
  by (cases "list_service ilike tie rows (nat skip) (nat limit) category search")
     (auto simp: list_products_def Let_def split: sum.splits)

text \<open>
  C10. \<open>has_more\<close> holds exactly when \<open>skip\<close> plus the number of items is below the
  total; in a response of \<open>list_products\<close> these are the \<open>skip\<close> of the request, the
  length of the page and the total that the service returned.
\<close>

theorem has_more_iff:
  "(has_more response \<longleftrightarrow>
      skip_l response + int (length (items_l response)) < total_l response)
   \<and> (list_products ilike tie rows skip limit category search = Inr response \<longrightarrow>
        (has_more response \<longleftrightarrow>
           skip + int (length (fst (list_service ilike tie rows (nat skip) (nat limit)
                                      category search)))
             < snd (list_service ilike tie rows (nat skip) (nat limit) category search)))"
proof (intro conjI impI)
  show "has_more response \<longleftrightarrow>
      skip_l response + int (length (items_l response)) < total_l response"
    by (simp add: has_more_def)
next
  assume "list_products ilike tie rows skip limit category search = Inr response"
  then have r: "model_validate_all
           (fst (list_service ilike tie rows (nat skip) (nat limit) category search))
           = Inr (items_l response)
         \<and> total_l response
             = snd (list_service ilike tie rows (nat skip) (nat limit) category search)
         \<and> skip_l response = skip \<and> limit_l response = limit"
    by (rule list_products_Inr)
  then have "length (items_l response)
               = length (fst (list_service ilike tie rows (nat skip) (nat limit)
                                category search))"
    by (simp add: model_validate_all_length)
  with r show "has_more response \<longleftrightarrow>
           skip + int (length (fst (list_service ilike tie rows (nat skip) (nat limit)
                                      category search)))
             < snd (list_service ilike tie rows (nat skip) (nat limit) category search)"
    by (simp add: has_more_def)
qed

lemma page_of_two:
  "list_service sql_ilike storage_order [widget, gadget] 0 (Suc 0) None None = ([gadget], 2)"
  by (simp add: list_service_def widget_def gadget_def storage_order_def)

lemma gadget_response:
  "\<exists>r. ProductResponse_model_validate gadget = Inr r"
  by (simp add: ProductResponse_model_validate_def gadget_def name_field_def
      str_constraints_def description_field_def price_field_def decimal_places_le_def
      required_def)

theorem has_more_iff_witness:
  "\<exists>response. list_products sql_ilike storage_order [widget, gadget] 0 1 None None
                 = Inr response
     \<and> has_more response \<and> length (items_l response) = 1 \<and> total_l response = 2"
proof -
  from gadget_response obtain r where r: "ProductResponse_model_validate gadget = Inr r"
    by blast
  let ?resp = "\<lparr> items_l = [r], total_l = 2, skip_l = 0, limit_l = 1 \<rparr>"
  have l: "list_products sql_ilike storage_order [widget, gadget] 0 1 None None = Inr ?resp"
    by (simp add: list_products_def skip_field_def limit_field_def search_field_def
        page_of_two r)
  from has_more_iff [of ?resp sql_ilike storage_order "[widget, gadget]" 0 1 None None] l
  have "has_more ?resp" by (simp add: page_of_two)
  with l show ?thesis by (intro exI [of _ ?resp]) simp
qed

end
